theory Spec2Isabelle
  imports Complex_Main
begin

section \<open>Strings and character classes\<close>

text \<open>
  JavaScript strings are modelled as HOL strings (lists of 8-bit characters, read as
  the code units U+0000 .. U+00FF).  The character classes below are the ones that the
  regular expressions of \<^verbatim>\<open>start.js\<close> mention.
\<close>

definition is_digit :: "char \<Rightarrow> bool" where
  "is_digit c = (c \<in> set ''0123456789'')"

definition is_hex :: "char \<Rightarrow> bool" where
  "is_hex c = (c \<in> set ''0123456789abcdefABCDEF'')"

definition is_alnum :: "char \<Rightarrow> bool" where
  "is_alnum c =
     (c \<in> set ''abcdefghijklmnopqrstuvwxyzABCDEFGHIJKLMNOPQRSTUVWXYZ0123456789'')"

text \<open>The class \<^verbatim>\<open>[a-zA-Z0-9.-]\<close> of the domain pattern.\<close>

definition is_domain_char :: "char \<Rightarrow> bool" where
  "is_domain_char c = (is_alnum c \<or> c = CHR ''.'' \<or> c = CHR ''-'')"

text \<open>The class \<^verbatim>\<open>\w\<close>.\<close>

definition is_word_char :: "char \<Rightarrow> bool" where
  "is_word_char c = (is_alnum c \<or> c = CHR ''_'')"

text \<open>White space as \<^verbatim>\<open>String.prototype.trim\<close> and \<^verbatim>\<open>parseInt\<close> strip it
  (tab, line feed, vertical tab, form feed, carriage return, space, no-break space).\<close>

definition is_js_space :: "char \<Rightarrow> bool" where
  "is_js_space c = (c \<in> {CHR 0x09, CHR 0x0A, CHR 0x0B, CHR 0x0C, CHR 0x0D, CHR 0x20, CHR 0xA0})"

text \<open>\<^verbatim>\<open>s.trim() === ""\<close>\<close>

definition trim_is_empty :: "string \<Rightarrow> bool" where
  "trim_is_empty s = list_all is_js_space s"

fun starts_with :: "string \<Rightarrow> string \<Rightarrow> bool" where
  "starts_with s [] = True"
| "starts_with [] (p # ps) = False"
| "starts_with (c # cs) (p # ps) = (c = p \<and> starts_with cs ps)"

text \<open>\<^verbatim>\<open>s.includes(needle)\<close>\<close>

fun str_includes :: "string \<Rightarrow> string \<Rightarrow> bool" where
  "str_includes [] needle = (needle = [])"
| "str_includes (c # cs) needle = (starts_with (c # cs) needle \<or> str_includes cs needle)"

text \<open>\<^verbatim>\<open>s.split(sep)\<close> for a one-character separator: the empty string splits into
  one empty piece.\<close>

fun split_js :: "char \<Rightarrow> string \<Rightarrow> string list" where
  "split_js sep [] = [[]]"
| "split_js sep (c # cs) =
     (if c = sep then [] # split_js sep cs
      else (case split_js sep cs of
              [] \<Rightarrow> [[c]]
            | p # ps \<Rightarrow> (c # p) # ps))"

definition digit_val :: "char \<Rightarrow> nat" where
  "digit_val c = of_char c - 48"

text \<open>\<^verbatim>\<open>parseInt(part, 10)\<close> on a string of decimal digits.\<close>

definition dec_val :: "string \<Rightarrow> nat" where
  "dec_val s = foldl (\<lambda>a c. 10 * a + digit_val c) 0 s"

section \<open>Input classification: \<^verbatim>\<open>isIPAddress\<close> and \<^verbatim>\<open>isDomain\<close>\<close>

text \<open>\<^verbatim>\<open>/^(?:[0-9]{1,3}\.){3}[0-9]{1,3}$/\<close>: four dot-separated groups of one to three
  digits.\<close>

definition ipv4Regex :: "string \<Rightarrow> bool" where
  "ipv4Regex str =
     (let parts = split_js (CHR ''.'') str
      in length parts = 4 \<and>
         list_all (\<lambda>p. 1 \<le> length p \<and> length p \<le> 3 \<and> list_all is_digit p) parts)"

text \<open>\<^verbatim>\<open>/^(?:[0-9a-fA-F]{1,4}:){7}[0-9a-fA-F]{1,4}$|^::1$|^::$|^::/\<close>: the first
  alternative is eight colon-separated groups of one to four hexadecimal digits; the last
  alternative accepts every string that starts with two colons.\<close>

definition ipv6Regex :: "string \<Rightarrow> bool" where
  "ipv6Regex str =
     ((let parts = split_js (CHR '':'') str
       in length parts = 8 \<and>
          list_all (\<lambda>p. 1 \<le> length p \<and> length p \<le> 4 \<and> list_all is_hex p) parts)
      \<or> str = ''::1'' \<or> str = ''::'' \<or> starts_with str ''::'')"

definition isIPAddress :: "string \<Rightarrow> bool" where
  "isIPAddress str =
     (if str = [] then False
      else if ipv4Regex str
           then list_all (\<lambda>part. dec_val part \<le> 255) (split_js (CHR ''.'') str)
           else ipv6Regex str)"

text \<open>\<^verbatim>\<open>/^[a-zA-Z0-9][a-zA-Z0-9.-]*[a-zA-Z0-9]$|^[a-zA-Z0-9]$/\<close>\<close>

definition isDomain :: "string \<Rightarrow> bool" where
  "isDomain str =
     (case str of
        [] \<Rightarrow> False
      | [c] \<Rightarrow> is_alnum c
      | c # cs \<Rightarrow> is_alnum c \<and> list_all is_domain_char (butlast cs) \<and> is_alnum (last cs))"

text \<open>The two ways in which \<^verbatim>\<open>isIPAddress\<close> answers true: through its IPv4 branch or
  through its IPv6 branch.\<close>

definition isIPv4 :: "string \<Rightarrow> bool" where
  "isIPv4 str =
     (str \<noteq> [] \<and> ipv4Regex str \<and>
      list_all (\<lambda>part. dec_val part \<le> 255) (split_js (CHR ''.'') str))"

definition isIPv6 :: "string \<Rightarrow> bool" where
  "isIPv6 str = (str \<noteq> [] \<and> \<not> ipv4Regex str \<and> ipv6Regex str)"

section \<open>Rate limiter\<close>

definition RATE_LIMIT_WINDOW :: int where
  "RATE_LIMIT_WINDOW = 60000"

definition MAX_REQUESTS_PER_IP :: nat where
  "MAX_REQUESTS_PER_IP = 60"

record rate_record =
  firstRequest :: int
  count :: nat

type_synonym rate_map = "string \<rightharpoonup> rate_record"

text \<open>\<^verbatim>\<open>checkRateLimit(ip)\<close>; \<open>now\<close> is the value of \<^verbatim>\<open>Date.now()\<close>, and the
  updated \<^verbatim>\<open>rateLimitMap\<close> is returned with the answer.\<close>

definition checkRateLimit :: "int \<Rightarrow> string \<Rightarrow> rate_map \<Rightarrow> bool \<times> rate_map" where
  "checkRateLimit now ip rateLimitMap =
     (let key = ''rate_'' @ ip
      in case rateLimitMap key of
           None \<Rightarrow> (True, rateLimitMap(key \<mapsto> \<lparr>firstRequest = now, count = 1\<rparr>))
         | Some record \<Rightarrow>
             if now - firstRequest record > RATE_LIMIT_WINDOW
             then (True, rateLimitMap(key \<mapsto> \<lparr>firstRequest = now, count = 1\<rparr>))
             else if count record \<ge> MAX_REQUESTS_PER_IP then (False, rateLimitMap)
             else (True, rateLimitMap(key \<mapsto> record\<lparr>count := count record + 1\<rparr>)))"

text \<open>A client issuing one call after the other, at the given clock readings.\<close>

fun rate_run :: "int list \<Rightarrow> string \<Rightarrow> rate_map \<Rightarrow> bool list \<times> rate_map" where
  "rate_run [] ip m = ([], m)"
| "rate_run (t # ts) ip m =
     (let (ok, m') = checkRateLimit t ip m;
          (oks, m'') = rate_run ts ip m'
      in (ok # oks, m''))"

section \<open>Resolver\<close>

definition DNS_MAX_RECURSION_DEPTH :: nat where
  "DNS_MAX_RECURSION_DEPTH = 10"

text \<open>
  The DNS layer is an external collaborator.  Each of the promisified calls either
  resolves with a value (\<open>Inr\<close>) or rejects with an error whose message is given
  (\<open>Inl\<close>).  \<^verbatim>\<open>dnsLookupAll\<close> stands for
  \<^verbatim>\<open>dnsLookup(domain, {all: true, family: 4})\<close> and \<^verbatim>\<open>dnsLookupOne\<close> for
  \<^verbatim>\<open>dnsLookup(domain, {family: 4})\<close>; \<^verbatim>\<open>dnsResolveA\<close> stands for
  \<^verbatim>\<open>dnsResolve(domain, 'A')\<close>.
\<close>

datatype lookup_result = AddressArray "string list" | AddressObject string

record dns_env =
  dnsResolve4 :: "string \<Rightarrow> string + string list"
  dnsResolveCname :: "string \<Rightarrow> string + string list"
  dnsResolveA :: "string \<Rightarrow> string + string list"
  dnsLookupAll :: "string \<Rightarrow> string + lookup_result"
  dnsLookupOne :: "string \<Rightarrow> string + string"

text \<open>The errors that \<^verbatim>\<open>resolveDomain\<close> constructs, one constructor per
  \<^verbatim>\<open>new Error(...)\<close> of the function.\<close>

datatype resolve_error =
    DepthExceeded
  | CnameCycle
  | NoRecords string
  | DomainNotExist string

text \<open>
  Next to the \<^verbatim>\<open>visited\<close> set that the recursive calls share, two records are
  kept of what a resolution does: the queries sent to the DNS layer, in order, and the
  invocations that one of the two guards at the head of \<^verbatim>\<open>resolveDomain\<close> has
  refused, each with its name, its depth and the error thrown.
\<close>

datatype dns_query =
    QueryResolve4 string
  | QueryResolveCname string
  | QueryResolveA string
  | QueryLookupAll string
  | QueryLookupOne string

record resolver_state =
  visited :: "string set"
  queries :: "dns_query list"
  refused :: "(string \<times> nat \<times> resolve_error) list"

definition sent :: "dns_query \<Rightarrow> resolver_state \<Rightarrow> resolver_state" where
  "sent q st = st\<lparr>queries := queries st @ [q]\<rparr>"

definition refuse :: "string \<Rightarrow> nat \<Rightarrow> resolve_error \<Rightarrow> resolver_state \<Rightarrow> resolver_state" where
  "refuse domain depth err st = st\<lparr>refused := refused st @ [(domain, depth, err)]\<rparr>"

text \<open>
  \<^verbatim>\<open>err.message.includes(needle)\<close> for an ASCII needle without blanks.  The message of
  \<open>NoRecords domain\<close> is the domain between two fixed pieces of text, the first ending
  and the second starting with a blank, whose only ASCII words are \<^verbatim>\<open>A\<close> and
  \<^verbatim>\<open>CNAME\<close>; the messages of the depth and cycle errors have the only ASCII word
  \<^verbatim>\<open>CNAME\<close> and the number 10; the message of \<open>DomainNotExist domain\<close> has the
  domain between two pieces of non-ASCII text.
\<close>

fun message_includes :: "resolve_error \<Rightarrow> string \<Rightarrow> bool" where
  "message_includes DepthExceeded needle = False"
| "message_includes CnameCycle needle = False"
| "message_includes (NoRecords domain) needle = str_includes domain needle"
| "message_includes (DomainNotExist domain) needle = str_includes domain needle"

text \<open>The handler of the outer \<^verbatim>\<open>try\<close> of \<^verbatim>\<open>resolveDomain\<close>.\<close>

definition rethrow :: "string \<Rightarrow> resolve_error \<Rightarrow> resolve_error" where
  "rethrow domain err =
     (if message_includes err ''ENOTFOUND'' \<or> message_includes err ''ENODATA''
      then DomainNotExist domain else err)"

text \<open>\<^verbatim>\<open>allIPs\<close> is a JavaScript \<^verbatim>\<open>Set\<close>: it keeps insertion order and ignores an
  element that is already present.\<close>

definition set_add :: "string list \<Rightarrow> string \<Rightarrow> string list" where
  "set_add allIPs ip = (if ip \<in> set allIPs then allIPs else allIPs @ [ip])"

definition add_each :: "string list \<Rightarrow> string list \<Rightarrow> string list" where
  "add_each allIPs ips = foldl set_add allIPs ips"

text \<open>The last statements of the outer \<^verbatim>\<open>try\<close> block of \<^verbatim>\<open>resolveDomain\<close>: the
  addresses collected by the four methods are returned if there are any; otherwise the
  "no records" error is thrown, and goes through the outer handler.\<close>

definition conclude ::
    "string \<Rightarrow> string list \<Rightarrow> resolver_state \<Rightarrow> (resolve_error + string list) \<times> resolver_state" where
  "conclude domain allIPs st =
     (if allIPs \<noteq> [] then (Inr allIPs, st)
      else (Inl (rethrow domain (NoRecords domain)), st))"

text \<open>
  \<^verbatim>\<open>resolveDomain(domain, visited, depth)\<close>, with the loop over the CNAME records as
  \<open>resolveCnames\<close>.  The loop stops at the first recursive call that throws; the
  addresses added before stay in \<^verbatim>\<open>allIPs\<close>, and the handler of method 2 drops the
  error.
\<close>

function resolveDomain ::
    "dns_env \<Rightarrow> string \<Rightarrow> resolver_state \<Rightarrow> nat \<Rightarrow> (resolve_error + string list) \<times> resolver_state"
  and resolveCnames ::
    "dns_env \<Rightarrow> string list \<Rightarrow> string list \<Rightarrow> resolver_state \<Rightarrow> nat
      \<Rightarrow> (resolve_error option \<times> string list) \<times> resolver_state"
where
  "resolveDomain env domain st depth =
     (if depth > DNS_MAX_RECURSION_DEPTH
      then (Inl DepthExceeded, refuse domain depth DepthExceeded st)
      else if domain \<in> visited st then (Inl CnameCycle, refuse domain depth CnameCycle st)
      else
        let st1 = st\<lparr>visited := insert domain (visited st)\<rparr>
        in if isIPAddress domain then (Inr [domain], st1)
           else
             let st2 = sent (QueryResolve4 domain) st1;
                 ips1 = (case dnsResolve4 env domain of
                           Inl err \<Rightarrow> []
                         | Inr addresses \<Rightarrow> add_each [] addresses);
                 st3 = sent (QueryResolveCname domain) st2;
                 ((thrown, ips2), st4) =
                   (case dnsResolveCname env domain of
                      Inl err \<Rightarrow> ((None, ips1), st3)
                    | Inr cnameRecords \<Rightarrow> resolveCnames env cnameRecords ips1 st3 (depth + 1));
                 st5 = sent (QueryResolveA domain) st4;
                 ips3 = (case dnsResolveA env domain of
                           Inl err \<Rightarrow> ips2
                         | Inr records \<Rightarrow> add_each ips2 records);
                 st6 = sent (QueryLookupAll domain) st5;
                 (ips4, st7) =
                   (case dnsLookupAll env domain of
                      Inr (AddressArray result) \<Rightarrow> (add_each ips3 result, st6)
                    | Inr (AddressObject address) \<Rightarrow> (set_add ips3 address, st6)
                    | Inl err \<Rightarrow>
                        (case dnsLookupOne env domain of
                           Inr address \<Rightarrow> (set_add ips3 address, sent (QueryLookupOne domain) st6)
                         | Inl err2 \<Rightarrow> (ips3, sent (QueryLookupOne domain) st6)))
             in conclude domain ips4 st7)"
| "resolveCnames env [] allIPs st depth = ((None, allIPs), st)"
| "resolveCnames env (cname # rest) allIPs st depth =
     (case resolveDomain env cname st depth of
        (Inl err, st') \<Rightarrow> ((Some err, allIPs), st')
      | (Inr resolvedIPs, st') \<Rightarrow> resolveCnames env rest (add_each allIPs resolvedIPs) st' depth)"
  by pat_completeness auto
termination
  by (relation "inv_image (less_than <*lex*> less_than)
        (\<lambda>x. case x of
                Inl (env, domain, st, depth) \<Rightarrow> (12 - depth, 0)
              | Inr (env, cnames, allIPs, st, depth) \<Rightarrow> (12 - depth, Suc (length cnames)))")
     (auto simp: DNS_MAX_RECURSION_DEPTH_def)

declare resolveDomain.simps [simp del]

text \<open>The call \<^verbatim>\<open>resolveDomain(ip)\<close> of the request handler: a fresh
  \<^verbatim>\<open>visited\<close> set and depth 0.\<close>

definition resolve :: "dns_env \<Rightarrow> string \<Rightarrow> (resolve_error + string list) \<times> resolver_state" where
  "resolve env domain = resolveDomain env domain \<lparr>visited = {}, queries = [], refused = []\<rparr> 0"


section \<open>Probes\<close>

definition DEFAULT_PORT :: int where
  "DEFAULT_PORT = 443"

definition DEFAULT_HOST :: string where
  "DEFAULT_HOST = ''clpan.pages.dev''"

definition DEFAULT_WS_PATH :: string where
  "DEFAULT_WS_PATH = ''/''"

text \<open>
  What the HTTPS request of \<^verbatim>\<open>testCDNTrace\<close> comes to.  The request delivers to the
  listeners that the function registers the end of a response (status code and the body
  accumulated from the chunks), an \<^verbatim>\<open>error\<close> event of the request (with
  \<^verbatim>\<open>err.message\<close>, possibly empty), or a \<^verbatim>\<open>timeout\<close> event; the first of them
  settles the promise.  Two more things can happen.  \<^verbatim>\<open>https.request\<close> can throw
  while the request is set up, inside the executor of the promise: it does so for a
  \<^verbatim>\<open>Host\<close> header value with a character that a header must not contain, and
  \<^verbatim>\<open>host\<close> is a query parameter that the handler passes on as it is.  And the
  response can be cut off after its head has arrived (the peer closes the connection in
  the middle of the body): then the response object emits \<^verbatim>\<open>aborted\<close>,
  \<^verbatim>\<open>error\<close> and \<^verbatim>\<open>close\<close>, for none of which the function registers a listener,
  the request emits no \<^verbatim>\<open>error\<close> any more, and the closed socket has no timeout.
\<close>

datatype http_outcome =
    HttpEnd int string
  | HttpError string
  | HttpTimeout
  | HttpThrows string
  | HttpCutOff


text \<open>The \<^verbatim>\<open>reason\<close> texts, one constructor per text of the source.\<close>

datatype cdn_reason =
    EndpointUnavailable int
  | HttpStatus int
  | EmptyResponse
  | ErrorMessage string
  | ConnectionFailed
  | RequestTimedOut

record cdn_result =
  success :: bool
  warp :: string
  reason :: "cdn_reason option"

text \<open>What becomes of an awaited promise: it resolves, it rejects, or it stays pending
  for ever, and the \<^verbatim>\<open>await\<close> never returns.  A rejection carries the message of its
  reason when the reason has one (\<open>Some\<close>); \<open>None\<close> is a reason without
  properties (\<^verbatim>\<open>null\<close> or \<^verbatim>\<open>undefined\<close>), on which reading \<^verbatim>\<open>err.message\<close>
  throws a \<^verbatim>\<open>TypeError\<close>.\<close>

datatype 'a settled = Resolved 'a | Rejected "string option" | Pending

text \<open>\<^verbatim>\<open>data.match(/warp=(\w+)/)\<close>: the capture group of the leftmost match.\<close>

fun warpMatch :: "string \<Rightarrow> string option" where
  "warpMatch [] = None"
| "warpMatch (c # cs) =
     (if starts_with (c # cs) ''warp='' \<and> takeWhile is_word_char (drop 5 (c # cs)) \<noteq> []
      then Some (takeWhile is_word_char (drop 5 (c # cs)))
      else warpMatch cs)"

text \<open>\<^verbatim>\<open>testCDNTrace(ip, port, host)\<close>, as a function of what the request to
  \<^verbatim>\<open>/cdn-cgi/trace\<close> comes to.  An exception thrown in the executor rejects the
  promise; when no listener is called, nothing settles it.\<close>

definition testCDNTrace :: "http_outcome \<Rightarrow> cdn_result settled" where
  "testCDNTrace outcome =
     (case outcome of
        HttpEnd statusCode body \<Rightarrow>
          if statusCode \<noteq> 200 \<or> trim_is_empty body
          then Resolved \<lparr>success = False, warp = ''off'',
                 reason = Some (if statusCode = 404 \<or> statusCode = 403
                                then EndpointUnavailable statusCode
                                else if statusCode \<noteq> 200 then HttpStatus statusCode
                                else EmptyResponse)\<rparr>
          else
            let w = (case warpMatch body of Some m \<Rightarrow> m | None \<Rightarrow> ''off'')
            in Resolved \<lparr>success = True, warp = (if w = ''on'' then ''on'' else ''off''),
                 reason = None\<rparr>
      | HttpError msg \<Rightarrow>
          Resolved \<lparr>success = False, warp = ''off'',
            reason = Some (if msg \<noteq> [] then ErrorMessage msg else ConnectionFailed)\<rparr>
      | HttpTimeout \<Rightarrow>
          Resolved \<lparr>success = False, warp = ''off'', reason = Some RequestTimedOut\<rparr>
      | HttpThrows msg \<Rightarrow> Rejected (Some msg)
      | HttpCutOff \<Rightarrow> Pending)"

section \<open>Detection of one address\<close>

record geo_record =
  city :: "string option"
  country :: "string option"
  countryName :: "string option"
  latitude :: "real option"
  longitude :: "real option"
  asn :: "nat option"
  organization :: "string option"

record ws_info =
  connected_ws :: bool
  protocol :: "string option"

record checks_record =
  tls_detect :: bool
  ws_real_connect :: bool
  cdn_trace :: bool

record latency_record =
  tls_handshake_ms :: "int option"
  ws_connect_ms :: "int option"

record detection_result =
  ip :: string
  checks :: checks_record
  latency :: latency_record
  geoip :: "geo_record option"
  cdn :: string
  websocket :: "ws_info option"
  error :: "string option"

text \<open>
  The collaborators of \<^verbatim>\<open>detectSingleIP\<close>: how its awaited calls settle for a target
  address, port, host and WebSocket path, the two feature switches read from the
  environment, and the differences of clock readings that become the latencies.
  A resolved \<^verbatim>\<open>lookupGeoIP\<close> gives \<open>Some\<close> record when the value is an object
  with at least one key and \<open>None\<close> otherwise.  \<^verbatim>\<open>testTLS\<close> and
  \<^verbatim>\<open>testWebSocket\<close> are taken as they settle; those of the source reject with
  \<^verbatim>\<open>Error\<close> objects only, so a rejection without a message stands for what the
  outer handler of \<^verbatim>\<open>detectSingleIP\<close> is there for: an exception that the stages do
  not expect.  \<^verbatim>\<open>detectSingleIP\<close> awaits each of them without a timer of its own.
\<close>

record probe_env =
  lookupGeoIP :: "string \<Rightarrow> geo_record option settled"
  testTLS :: "string \<Rightarrow> int \<Rightarrow> string \<Rightarrow> unit settled"
  testWebSocket :: "string \<Rightarrow> int \<Rightarrow> string \<Rightarrow> string \<Rightarrow> ws_info option settled"
  cdnTraceRequest :: "string \<Rightarrow> int \<Rightarrow> string \<Rightarrow> http_outcome"
  DISABLE_WEBSOCKET :: bool
  DISABLE_CDN_TRACE :: bool
  tlsElapsed :: "string \<Rightarrow> int"
  wsElapsed :: "string \<Rightarrow> int"

definition TYPE_ERROR_MESSAGE :: string where
  "TYPE_ERROR_MESSAGE =
     ''Cannot read properties of undefined (reading '' @ [CHR 0x27] @ ''message'' @ [CHR 0x27] @ '')''"

text \<open>How a stage of \<^verbatim>\<open>detectSingleIP\<close> ends: control leaves it normally, an
  exception escapes it, or its \<^verbatim>\<open>await\<close> never returns.\<close>

datatype stage_end = Completed | Threw string | NeverReturns

text \<open>Reading \<^verbatim>\<open>err.message\<close> in a handler: the exception it may throw.\<close>

definition read_message :: "string option \<Rightarrow> stage_end" where
  "read_message rejection = (case rejection of Some msg \<Rightarrow> Completed | None \<Rightarrow> Threw TYPE_ERROR_MESSAGE)"

text \<open>The four stages of the guarded block of \<^verbatim>\<open>detectSingleIP\<close>.  Each returns the
  result object as it has left it and how the stage ended.\<close>

definition geoip_stage :: "probe_env \<Rightarrow> string \<Rightarrow> detection_result \<Rightarrow> detection_result \<times> stage_end" where
  "geoip_stage env targetIP result =
     (case lookupGeoIP env targetIP of
        Resolved geoipData \<Rightarrow>
          (case geoipData of
             Some g \<Rightarrow> (result\<lparr>geoip := Some g\<rparr>, Completed)
           | None \<Rightarrow> (result, Completed))
      | Rejected err \<Rightarrow> (result, read_message err)
      | Pending \<Rightarrow> (result, NeverReturns))"

definition tls_stage ::
    "probe_env \<Rightarrow> string \<Rightarrow> int \<Rightarrow> string \<Rightarrow> detection_result \<Rightarrow> detection_result \<times> stage_end" where
  "tls_stage env targetIP targetPort hostv result =
     (case testTLS env targetIP targetPort hostv of
        Resolved u \<Rightarrow>
          (result\<lparr>checks := (checks result)\<lparr>tls_detect := True\<rparr>,
                  latency := (latency result)\<lparr>tls_handshake_ms := Some (tlsElapsed env targetIP)\<rparr>\<rparr>,
           Completed)
      | Rejected err \<Rightarrow>
          (result\<lparr>checks := (checks result)\<lparr>tls_detect := False\<rparr>,
                  latency := (latency result)\<lparr>tls_handshake_ms := Some (tlsElapsed env targetIP)\<rparr>\<rparr>,
           read_message err)
      | Pending \<Rightarrow> (result, NeverReturns))"

definition ws_stage ::
    "probe_env \<Rightarrow> string \<Rightarrow> int \<Rightarrow> string \<Rightarrow> string \<Rightarrow> detection_result
      \<Rightarrow> detection_result \<times> stage_end" where
  "ws_stage env targetIP targetPort hostv wsPath result =
     (if DISABLE_WEBSOCKET env
      then (result\<lparr>checks := (checks result)\<lparr>ws_real_connect := False\<rparr>,
                   latency := (latency result)\<lparr>ws_connect_ms := Some 0\<rparr>\<rparr>, Completed)
      else
        case testWebSocket env targetIP targetPort hostv wsPath of
          Resolved wsInfo \<Rightarrow>
            (let r1 = result\<lparr>checks := (checks result)\<lparr>ws_real_connect := True\<rparr>,
                          latency := (latency result)\<lparr>ws_connect_ms := Some (wsElapsed env targetIP)\<rparr>\<rparr>
             in (case wsInfo of Some info \<Rightarrow> r1\<lparr>websocket := Some info\<rparr> | None \<Rightarrow> r1), Completed)
        | Rejected err \<Rightarrow>
            (result\<lparr>checks := (checks result)\<lparr>ws_real_connect := False\<rparr>,
                    latency := (latency result)\<lparr>ws_connect_ms := Some (wsElapsed env targetIP)\<rparr>\<rparr>,
             read_message err)
        | Pending \<Rightarrow> (result, NeverReturns))"

definition cdn_stage ::
    "probe_env \<Rightarrow> string \<Rightarrow> int \<Rightarrow> string \<Rightarrow> detection_result \<Rightarrow> detection_result \<times> stage_end" where
  "cdn_stage env targetIP targetPort hostv result =
     (if DISABLE_CDN_TRACE env
      then (result\<lparr>checks := (checks result)\<lparr>cdn_trace := False\<rparr>\<rparr>, Completed)
      else
        case testCDNTrace (cdnTraceRequest env targetIP targetPort hostv) of
          Resolved cdnResult \<Rightarrow>
            (let r1 = result\<lparr>checks := (checks result)\<lparr>cdn_trace := success cdnResult\<rparr>\<rparr>
             in (if warp cdnResult \<noteq> [] then r1\<lparr>cdn := warp cdnResult\<rparr> else r1), Completed)
        | Rejected err \<Rightarrow>
            (result\<lparr>checks := (checks result)\<lparr>cdn_trace := False\<rparr>\<rparr>, read_message err)
        | Pending \<Rightarrow> (result, NeverReturns))"

text \<open>Sequencing inside the guarded block: a stage runs only if control has left the
  stages before it normally.\<close>

definition and_then ::
    "detection_result \<times> stage_end \<Rightarrow> (detection_result \<Rightarrow> detection_result \<times> stage_end)
      \<Rightarrow> detection_result \<times> stage_end" where
  "and_then r stage =
     (case r of
        (result, Completed) \<Rightarrow> stage result
      | (result, Threw exn) \<Rightarrow> (result, Threw exn)
      | (result, NeverReturns) \<Rightarrow> (result, NeverReturns))"

definition initial_result :: "string \<Rightarrow> detection_result" where
  "initial_result targetIP =
     \<lparr>ip = targetIP,
      checks = \<lparr>tls_detect = False, ws_real_connect = False, cdn_trace = False\<rparr>,
      latency = \<lparr>tls_handshake_ms = None, ws_connect_ms = None\<rparr>,
      geoip = None, cdn = ''off'', websocket = None, error = None\<rparr>"

definition guarded_block ::
    "probe_env \<Rightarrow> int \<Rightarrow> string \<Rightarrow> string \<Rightarrow> string \<Rightarrow> detection_result \<times> stage_end" where
  "guarded_block env targetPort hostv wsPath targetIP =
     and_then (and_then (and_then (geoip_stage env targetIP (initial_result targetIP))
                 (tls_stage env targetIP targetPort hostv))
                 (ws_stage env targetIP targetPort hostv wsPath))
                 (cdn_stage env targetIP targetPort hostv)"

text \<open>\<^verbatim>\<open>detectSingleIP(targetIP, index, total)\<close>; the port, host and path are the
  variables of the enclosing handler.  The outer handler stores the message of the
  exception in \<^verbatim>\<open>result.error\<close> and returns the result object.  The promise of
  \<^verbatim>\<open>detectSingleIP\<close> never rejects; \<open>None\<close> is the promise that stays pending
  because an \<^verbatim>\<open>await\<close> of the block never returns.\<close>

definition detectSingleIP :: "probe_env \<Rightarrow> int \<Rightarrow> string \<Rightarrow> string \<Rightarrow> string \<Rightarrow> detection_result option" where
  "detectSingleIP env targetPort hostv wsPath targetIP =
     (case guarded_block env targetPort hostv wsPath targetIP of
        (result, Completed) \<Rightarrow> Some result
      | (result, Threw exn) \<Rightarrow> Some (result\<lparr>error := Some exn\<rparr>)
      | (result, NeverReturns) \<Rightarrow> None)"

definition MAX_CONCURRENT :: nat where
  "MAX_CONCURRENT = 10"

text \<open>\<^verbatim>\<open>Promise.all\<close> over promises that do not reject: it resolves with the values in
  the order of the promises when every one of them resolves, and stays pending
  (\<open>None\<close>) when one of them does.\<close>

fun promise_all :: "'a option list \<Rightarrow> 'a list option" where
  "promise_all [] = Some []"
| "promise_all (p # ps) =
     (case p of
        None \<Rightarrow> None
      | Some v \<Rightarrow> (case promise_all ps of None \<Rightarrow> None | Some vs \<Rightarrow> Some (v # vs)))"

text \<open>The batch loop of the handler: \<open>i\<close> is the loop variable and \<open>results\<close> the
  array that the batches are pushed to; \<open>started\<close> records the addresses for which
  \<^verbatim>\<open>detectSingleIP\<close> has been called.  When the \<^verbatim>\<open>await\<close> of a batch never returns,
  neither does the loop (\<open>None\<close>).\<close>

function detect_batches ::
    "(string \<Rightarrow> detection_result option) \<Rightarrow> string list \<Rightarrow> nat \<Rightarrow> detection_result list \<Rightarrow> string list
      \<Rightarrow> detection_result list option \<times> string list" where
  "detect_batches detect targetIPs i results started =
     (if i < length targetIPs
      then let batch = take MAX_CONCURRENT (drop i targetIPs)
           in case promise_all (map detect batch) of
                None \<Rightarrow> (None, started @ batch)
              | Some batchResults \<Rightarrow>
                  detect_batches detect targetIPs (i + MAX_CONCURRENT) (results @ batchResults)
                    (started @ batch)
      else (Some results, started))"
  by pat_completeness auto
termination
  by (relation "measure (\<lambda>(detect, targetIPs, i, results, started). length targetIPs - i)")
     (auto simp: MAX_CONCURRENT_def)

declare detect_batches.simps [simp del]

section \<open>The request handler of \<^verbatim>\<open>/api\<close>\<close>

definition CACHE_DURATION :: int where
  "CACHE_DURATION = 30000"

definition MAX_IP_COUNT :: nat where
  "MAX_IP_COUNT = 50"

definition hex_digit_val :: "char \<Rightarrow> nat" where
  "hex_digit_val c =
     (if is_digit c then of_char c - 48
      else if c \<in> set ''abcdef'' then of_char c - 87
      else of_char c - 55)"

text \<open>\<^verbatim>\<open>parseInt(s)\<close> without a radix: leading white space, an optional sign, an
  optional \<^verbatim>\<open>0x\<close> prefix, then the longest run of digits; \<open>None\<close> is \<^verbatim>\<open>NaN\<close>.\<close>

definition js_parseInt :: "string \<Rightarrow> int option" where
  "js_parseInt s =
     (let s1 = dropWhile is_js_space s;
          negative = (s1 \<noteq> [] \<and> hd s1 = CHR ''-'');
          s2 = (if s1 \<noteq> [] \<and> (hd s1 = CHR ''-'' \<or> hd s1 = CHR ''+'') then tl s1 else s1);
          hex = (starts_with s2 ''0x'' \<or> starts_with s2 ''0X'');
          s3 = (if hex then drop 2 s2 else s2);
          ds = takeWhile (if hex then is_hex else is_digit) s3;
          magnitude = (if hex then foldl (\<lambda>a c. 16 * a + hex_digit_val c) 0 ds else dec_val ds)
      in if ds = [] then None
         else Some (if negative then - int magnitude else int magnitude))"

text \<open>\<^verbatim>\<open>ip.match(/^(.+?):(\d+)$/)\<close>: the digits after the last colon and the text before
  it, which is not empty and has no line terminator.\<close>

definition ipPortMatch :: "string \<Rightarrow> (string \<times> string) option" where
  "ipPortMatch s =
     (let tail = rev (takeWhile (\<lambda>c. c \<noteq> CHR '':'') (rev s));
          rest = dropWhile (\<lambda>c. c \<noteq> CHR '':'') (rev s)
      in case rest of
           [] \<Rightarrow> None
         | colon # front \<Rightarrow>
             if front \<noteq> [] \<and> list_all (\<lambda>c. c \<noteq> CHR 0x0A \<and> c \<noteq> CHR 0x0D) front
                \<and> tail \<noteq> [] \<and> list_all is_digit tail
             then Some (rev front, tail)
             else None)"

text \<open>The decimal text of a number, as a template literal gives it.\<close>

fun show_nat :: "nat \<Rightarrow> string" where
  "show_nat n =
     (if n < 10 then [char_of (48 + n)]
      else show_nat (n div 10) @ [char_of (48 + n mod 10)])"

definition cacheKey :: "bool \<Rightarrow> string \<Rightarrow> int \<Rightarrow> string \<Rightarrow> string" where
  "cacheKey isDomainName ipv targetPort hostv =
     (if isDomainName
      then ''domain_'' @ ipv @ ''_'' @ show_nat (nat targetPort) @ ''_'' @ hostv
      else ''ip_'' @ ipv @ ''_'' @ show_nat (nat targetPort) @ ''_'' @ hostv)"

record cleaned_result =
  cleaned_ip :: string
  cleaned_checks :: checks_record
  cleaned_latency :: latency_record
  cleaned_geoip :: "geo_record option"
  cleaned_cdn :: string
  cleaned_websocket :: "ws_info option"

text \<open>\<^verbatim>\<open>value || null\<close> on a string and on a number.\<close>

definition or_null_string :: "string option \<Rightarrow> string option" where
  "or_null_string v = (case v of Some x \<Rightarrow> (if x = [] then None else Some x) | None \<Rightarrow> None)"

definition or_null_number :: "('a::zero) option \<Rightarrow> 'a option" where
  "or_null_number v = (case v of Some x \<Rightarrow> (if x = 0 then None else Some x) | None \<Rightarrow> None)"

text \<open>The map that builds \<^verbatim>\<open>cleanedResults\<close>; it copies no \<^verbatim>\<open>error\<close> field.\<close>

definition clean :: "detection_result \<Rightarrow> cleaned_result" where
  "clean r =
     \<lparr>cleaned_ip = ip r,
      cleaned_checks = checks r,
      cleaned_latency = latency r,
      cleaned_geoip =
        (case geoip r of
           None \<Rightarrow> None
         | Some g \<Rightarrow>
             Some \<lparr>city = or_null_string (city g), country = or_null_string (country g),
                   countryName = or_null_string (countryName g),
                   latitude = or_null_number (latitude g), longitude = or_null_number (longitude g),
                   asn = or_null_number (asn g), organization = or_null_string (organization g)\<rparr>),
      cleaned_cdn = (if cdn r = [] then ''off'' else cdn r),
      cleaned_websocket =
        (case websocket r of
           None \<Rightarrow> None
         | Some w \<Rightarrow> if connected_ws w
                     then Some \<lparr>connected_ws = True, protocol = or_null_string (protocol w)\<rparr>
                     else None)\<rparr>"

text \<open>The response payload: one result spread at top level for a single target, or the
  array of results with the resolved addresses.\<close>

datatype payload_results =
    SingleResult cleaned_result
  | ResultArray "string list" "cleaned_result list"

record payload =
  input :: string
  isDomainName :: bool
  port :: int
  results :: payload_results
  host :: "string option"
  timestamp :: int

datatype api_error =
    MissingParameter
  | InvalidAddressOrDomain
  | DnsFailed "resolve_error option"
  | TooManyAddresses nat
  | TooManyRequests
  | InvalidPort

datatype response_body = ErrorBody api_error | PayloadBody payload

record response =
  status :: nat
  body :: response_body

record cache_entry =
  data :: payload
  cached_at :: int

record server_state =
  requestCache :: "string \<rightharpoonup> cache_entry"
  rateLimitMap :: rate_map

text \<open>A request: the four query parameters, each present or not, and the client identity
  that \<^verbatim>\<open>getClientIP(req)\<close> derives from the headers and the peer address.\<close>

record request =
  query_ip :: "string option"
  query_port :: "string option"
  query_host :: "string option"
  query_wsPath :: "string option"
  clientIp :: string

text \<open>The readings of the clock in the handler: in \<^verbatim>\<open>checkRateLimit\<close>, at the cache
  lookup, for the timestamp of the payload and at the cache write.\<close>

record clock =
  now_rate :: int
  now_lookup :: int
  now_payload :: int
  now_store :: int

text \<open>What a run of the handler does, in the order in which it does it: the validation
  of the input, the queries of the resolver, the check of the number of addresses, the
  call of \<^verbatim>\<open>checkRateLimit\<close>, the check of the port, the cache lookup, the calls of
  \<^verbatim>\<open>detectSingleIP\<close>, the cache write, and the response with its status.\<close>

datatype event =
    ValidateInput
  | DnsQuery dns_query
  | CountAddresses nat
  | RateLimitCheck string
  | PortCheck
  | CacheLookup string
  | Detect string
  | CacheWrite string
  | Respond nat

text \<open>What a run of the handler comes to: the response that it sends (\<open>None\<close> when it
  never sends one, because the \<^verbatim>\<open>await\<close> of the batch loop never returns), the state
  of the server, and the events of the run.\<close>

type_synonym run = "response option \<times> server_state \<times> event list"

definition respond_error :: "nat \<Rightarrow> api_error \<Rightarrow> server_state \<Rightarrow> event list \<Rightarrow> run" where
  "respond_error code err st trace =
     (Some \<lparr>status = code, body = ErrorBody err\<rparr>, st, trace @ [Respond code])"

text \<open>The \<^verbatim>\<open>response\<close> object that the handler builds from the results of the batch
  loop.\<close>

definition response_payload ::
    "clock \<Rightarrow> string \<Rightarrow> bool \<Rightarrow> int \<Rightarrow> string \<Rightarrow> string list \<Rightarrow> detection_result list \<Rightarrow> payload" where
  "response_payload clk ipv isDom targetPort hostv targetIPs detected =
     (let cleanedResults = map clean detected
      in \<lparr>input = ipv, isDomainName = isDom, port = targetPort,
          results = (if length targetIPs = 1 then SingleResult (hd cleanedResults)
                     else ResultArray targetIPs cleanedResults),
          host = (if hostv = DEFAULT_HOST then None else Some hostv),
          timestamp = now_payload clk\<rparr>)"

text \<open>The handler from the cache lookup on: a hit serves the stored payload; otherwise
  the batch loop runs and, when it returns, the payload is built and stored, and then
  sent.\<close>

definition lookup_and_detect ::
    "probe_env \<Rightarrow> clock \<Rightarrow> string \<Rightarrow> bool \<Rightarrow> int \<Rightarrow> string \<Rightarrow> string \<Rightarrow> string list
      \<Rightarrow> server_state \<Rightarrow> event list \<Rightarrow> run" where
  "lookup_and_detect penv clk ipv isDom targetPort hostv wsPath targetIPs st trace =
     (let key = cacheKey isDom ipv targetPort hostv;
          trace1 = trace @ [CacheLookup key];
          hit = (case requestCache st key of
                   Some cached \<Rightarrow> if now_lookup clk - cached_at cached < CACHE_DURATION
                                  then Some (data cached) else None
                 | None \<Rightarrow> None)
      in case hit of
           Some stored \<Rightarrow> (Some \<lparr>status = 200, body = PayloadBody stored\<rparr>, st, trace1 @ [Respond 200])
         | None \<Rightarrow>
             (case detect_batches (detectSingleIP penv targetPort hostv wsPath) targetIPs 0 [] [] of
                (None, started) \<Rightarrow> (None, st, trace1 @ map Detect started)
              | (Some detected, started) \<Rightarrow>
                  let resp = response_payload clk ipv isDom targetPort hostv targetIPs detected;
                      st1 = st\<lparr>requestCache :=
                               (requestCache st)(key \<mapsto> \<lparr>data = resp, cached_at = now_store clk\<rparr>)\<rparr>
                  in (Some \<lparr>status = 200, body = PayloadBody resp\<rparr>, st1,
                      trace1 @ map Detect started @ [CacheWrite key, Respond 200])))"

text \<open>\<^verbatim>\<open>parseInt(port)\<close>: \<open>portv\<close> is \<open>None\<close> when the variable
  \<^verbatim>\<open>port\<close> holds the number \<^verbatim>\<open>DEFAULT_PORT\<close> and \<open>Some\<close> text otherwise; the
  result \<open>None\<close> is \<^verbatim>\<open>NaN\<close>.\<close>

definition parse_port :: "string option \<Rightarrow> int option" where
  "parse_port portv = (case portv of None \<Rightarrow> Some DEFAULT_PORT | Some p \<Rightarrow> js_parseInt p)"

text \<open>The handler from the address-count limit on: the limit, the rate-limit gate and
  the port check.\<close>

definition rate_limit_gate ::
    "probe_env \<Rightarrow> clock \<Rightarrow> string \<Rightarrow> string \<Rightarrow> bool \<Rightarrow> string option \<Rightarrow> string \<Rightarrow> string
      \<Rightarrow> string list \<Rightarrow> server_state \<Rightarrow> event list \<Rightarrow> run" where
  "rate_limit_gate penv clk client ipv isDom portv hostv wsPath targetIPs st trace =
     (let trace0 = trace @ [CountAddresses (length targetIPs)]
      in if length targetIPs > MAX_IP_COUNT
         then respond_error 400 (TooManyAddresses (length targetIPs)) st trace0
         else
           let (allowed, limits) = checkRateLimit (now_rate clk) client (rateLimitMap st);
               st1 = st\<lparr>rateLimitMap := limits\<rparr>;
               trace1 = trace0 @ [RateLimitCheck client]
           in if \<not> allowed then respond_error 429 TooManyRequests st1 trace1
              else
                let trace2 = trace1 @ [PortCheck]
                in case parse_port portv of
                     None \<Rightarrow> respond_error 400 InvalidPort st1 trace2
                   | Some targetPort \<Rightarrow>
                       if targetPort < 1 \<or> targetPort > 65535
                       then respond_error 400 InvalidPort st1 trace2
                       else lookup_and_detect penv clk ipv isDom targetPort hostv wsPath targetIPs
                              st1 trace2)"

text \<open>
  The first statements of the handler, up to the defaults: the address part and the
  port of an \<^verbatim>\<open>ip:port\<close> input, the host, the port variable and the WebSocket path.
  \<open>None\<close> is the case of the missing \<^verbatim>\<open>ip\<close> parameter.
\<close>

definition parse_query :: "request \<Rightarrow> (string \<times> string option \<times> string \<times> string) option" where
  "parse_query req =
     (case query_ip req of
        None \<Rightarrow> None
      | Some ip0 \<Rightarrow>
          if ip0 = [] then None
          else
            let (ipv, port1) = (case ipPortMatch ip0 of
                                  Some (a, p) \<Rightarrow> (a, Some p)
                                | None \<Rightarrow> (ip0, query_port req));
                hostv = (case query_host req of
                           None \<Rightarrow> DEFAULT_HOST
                         | Some h \<Rightarrow> if h = [] \<or> trim_is_empty h then DEFAULT_HOST else h);
                portv = (case port1 of
                           None \<Rightarrow> None
                         | Some p \<Rightarrow> if p = [] \<or> p = ''443'' then None else Some p);
                wsPath = (case query_wsPath req of None \<Rightarrow> DEFAULT_WS_PATH | Some w \<Rightarrow> w)
            in Some (ipv, portv, hostv, wsPath))"

text \<open>\<^verbatim>\<open>app.get("/api", ...)\<close>: input validation, resolution of a domain, then the
  rest of the handler.\<close>

definition api :: "dns_env \<Rightarrow> probe_env \<Rightarrow> clock \<Rightarrow> request \<Rightarrow> server_state \<Rightarrow> run" where
  "api denv penv clk req st =
     (case parse_query req of
        None \<Rightarrow> respond_error 400 MissingParameter st [ValidateInput]
      | Some (ipv, portv, hostv, wsPath) \<Rightarrow>
          if \<not> isIPAddress ipv \<and> \<not> isDomain ipv
          then respond_error 400 InvalidAddressOrDomain st [ValidateInput]
          else if isDomain ipv
          then (case resolve denv ipv of
                  (Inl err, rst) \<Rightarrow>
                    respond_error 400 (DnsFailed (Some err)) st
                      (ValidateInput # map DnsQuery (queries rst))
                | (Inr targetIPs, rst) \<Rightarrow>
                    if targetIPs = []
                    then respond_error 400 (DnsFailed None) st
                           (ValidateInput # map DnsQuery (queries rst))
                    else rate_limit_gate penv clk (clientIp req) ipv True portv hostv wsPath targetIPs st
                           (ValidateInput # map DnsQuery (queries rst)))
          else rate_limit_gate penv clk (clientIp req) ipv False portv hostv wsPath [ipv] st
                 [ValidateInput])"

text \<open>The stages of the handler, and the stage that an event belongs to.\<close>

datatype stage =
    InputValidation
  | Resolution
  | AddressLimit
  | RateLimit
  | PortValidation
  | CacheRead
  | Detection
  | CacheStore
  | Answer

fun stage_of :: "event \<Rightarrow> stage" where
  "stage_of ValidateInput = InputValidation"
| "stage_of (DnsQuery q) = Resolution"
| "stage_of (CountAddresses n) = AddressLimit"
| "stage_of (RateLimitCheck c) = RateLimit"
| "stage_of PortCheck = PortValidation"
| "stage_of (CacheLookup k) = CacheRead"
| "stage_of (Detect a) = Detection"
| "stage_of (CacheWrite k) = CacheStore"
| "stage_of (Respond n) = Answer"

text \<open>The place of a stage in the order of the stages.\<close>

fun stage_index :: "stage \<Rightarrow> nat" where
  "stage_index InputValidation = 0"
| "stage_index Resolution = 1"
| "stage_index AddressLimit = 2"
| "stage_index RateLimit = 3"
| "stage_index PortValidation = 4"
| "stage_index CacheRead = 5"
| "stage_index Detection = 6"
| "stage_index CacheStore = 7"
| "stage_index Answer = 8"

text \<open>How often a run has been in a stage.\<close>

definition times_in :: "stage \<Rightarrow> event list \<Rightarrow> nat" where
  "times_in s trace = length (filter (\<lambda>e. stage_of e = s) trace)"

text \<open>The cache key that the handler builds for a request: a function of the
  \<^verbatim>\<open>ip\<close>, \<^verbatim>\<open>port\<close> and \<^verbatim>\<open>host\<close> parameters; \<open>None\<close> when the handler does
  not get as far as building a key for any answer of the DNS layer (missing address,
  unreadable port).\<close>

definition request_key :: "request \<Rightarrow> string option" where
  "request_key req =
     (case parse_query req of
        None \<Rightarrow> None
      | Some (ipv, portv, hostv, wsPath) \<Rightarrow>
          (case parse_port portv of
             None \<Rightarrow> None
           | Some targetPort \<Rightarrow> Some (cacheKey (isDomain ipv) ipv targetPort hostv)))"

text \<open>Whether the port variable of a request parses to a number between 1 and 65535.\<close>

definition port_accepted :: "request \<Rightarrow> bool" where
  "port_accepted req =
     (case parse_query req of
        None \<Rightarrow> False
      | Some (ipv, portv, hostv, wsPath) \<Rightarrow>
          (case parse_port portv of
             None \<Rightarrow> False
           | Some targetPort \<Rightarrow> 1 \<le> targetPort \<and> targetPort \<le> 65535))"

text \<open>The call of \<^verbatim>\<open>checkRateLimit\<close> that the handler makes for a request.\<close>

definition rate_check :: "clock \<Rightarrow> request \<Rightarrow> server_state \<Rightarrow> bool \<times> rate_map" where
  "rate_check clk req st = checkRateLimit (now_rate clk) (clientIp req) (rateLimitMap st)"

text \<open>The queries that the handler has the resolver send for a request: those of resolving
  the address part when it satisfies \<^verbatim>\<open>isDomain\<close>, and none otherwise.\<close>

definition resolver_queries :: "dns_env \<Rightarrow> request \<Rightarrow> dns_query list" where
  "resolver_queries denv req =
     (case parse_query req of
        None \<Rightarrow> []
      | Some (ipv, portv, hostv, wsPath) \<Rightarrow>
          if isDomain ipv then queries (snd (resolve denv ipv)) else [])"

text \<open>The addresses that the handler has in \<^verbatim>\<open>targetIPs\<close> for a request: those that
  the resolver returns for an address part that satisfies \<^verbatim>\<open>isDomain\<close>, the address
  part itself when it is an address only, and none when the request is refused before.\<close>

definition target_addresses :: "dns_env \<Rightarrow> request \<Rightarrow> string list" where
  "target_addresses denv req =
     (case parse_query req of
        None \<Rightarrow> []
      | Some (ipv, portv, hostv, wsPath) \<Rightarrow>
          if isDomain ipv
          then (case fst (resolve denv ipv) of Inr targetIPs \<Rightarrow> targetIPs | Inl err \<Rightarrow> [])
          else if isIPAddress ipv then [ipv] else [])"

text \<open>The exception that escaped a stage, if one did.\<close>

definition thrown :: "stage_end \<Rightarrow> string option" where
  "thrown e = (case e of Threw exn \<Rightarrow> Some exn | Completed \<Rightarrow> None | NeverReturns \<Rightarrow> None)"

definition all_false :: checks_record where
  "all_false = \<lparr>tls_detect = False, ws_real_connect = False, cdn_trace = False\<rparr>"

text \<open>No probe of the address succeeds, and all of them settle: the TLS probe rejects,
  the WebSocket probe is switched off or rejects, and the trace probe is switched off,
  rejects or reports no success.\<close>

definition probes_all_fail :: "probe_env \<Rightarrow> int \<Rightarrow> string \<Rightarrow> string \<Rightarrow> string \<Rightarrow> bool" where
  "probes_all_fail env targetPort hostv wsPath targetIP =
     ((case testTLS env targetIP targetPort hostv of
         Resolved u \<Rightarrow> False | Rejected e \<Rightarrow> True | Pending \<Rightarrow> False)
      \<and> (DISABLE_WEBSOCKET env
           \<or> (case testWebSocket env targetIP targetPort hostv wsPath of
                 Resolved i \<Rightarrow> False | Rejected e \<Rightarrow> True | Pending \<Rightarrow> False))
      \<and> (DISABLE_CDN_TRACE env
           \<or> (case testCDNTrace (cdnTraceRequest env targetIP targetPort hostv) of
                 Resolved r \<Rightarrow> \<not> success r
               | Rejected e \<Rightarrow> True
               | Pending \<Rightarrow> False)))"

section \<open>Concrete environments\<close>

text \<open>A DNS layer in which every call rejects.\<close>

definition unreachable_dns :: dns_env where
  "unreachable_dns =
     \<lparr>dnsResolve4 = (\<lambda>d. Inl ''ESERVFAIL''),
      dnsResolveCname = (\<lambda>d. Inl ''ESERVFAIL''),
      dnsResolveA = (\<lambda>d. Inl ''ESERVFAIL''),
      dnsLookupAll = (\<lambda>d. Inl ''EAI_AGAIN''),
      dnsLookupOne = (\<lambda>d. Inl ''EAI_AGAIN'')\<rparr>"

text \<open>Probes that all fail with ordinary errors, with no GeoIP database loaded.\<close>

definition failing_probes :: probe_env where
  "failing_probes =
     \<lparr>lookupGeoIP = (\<lambda>a. Resolved None),
      testTLS = (\<lambda>a p h. Rejected (Some ''connect ECONNREFUSED'')),
      testWebSocket = (\<lambda>a p h w. Rejected (Some ''connect ECONNREFUSED'')),
      cdnTraceRequest = (\<lambda>a p h. HttpTimeout),
      DISABLE_WEBSOCKET = False,
      DISABLE_CDN_TRACE = False,
      tlsElapsed = (\<lambda>a. 12),
      wsElapsed = (\<lambda>a. 15)\<rparr>"

text \<open>A server state in which the client \<^verbatim>\<open>203.0.113.9\<close> has used up its window that
  opened at time 0.\<close>

definition exhausted_state :: server_state where
  "exhausted_state =
     \<lparr>requestCache = Map.empty,
      rateLimitMap = [''rate_203.0.113.9'' \<mapsto> \<lparr>firstRequest = 0, count = 60\<rparr>]\<rparr>"

definition noon :: clock where
  "noon = \<lparr>now_rate = 1000, now_lookup = 1000, now_payload = 1000, now_store = 1000\<rparr>"



text \<open>Two names whose CNAME records point at each other, without any address.\<close>

definition pair_dns :: dns_env where
  "pair_dns =
     \<lparr>dnsResolve4 = (\<lambda>d. Inl ''queryA ESERVFAIL''),
      dnsResolveCname = (\<lambda>d. if d = ''a.example'' then Inr [''b.example'']
                               else if d = ''b.example'' then Inr [''a.example'']
                               else Inl ''queryCname ESERVFAIL''),
      dnsResolveA = (\<lambda>d. Inl ''queryA ESERVFAIL''),
      dnsLookupAll = (\<lambda>d. Inl ''getaddrinfo EAI_AGAIN''),
      dnsLookupOne = (\<lambda>d. Inl ''getaddrinfo EAI_AGAIN'')\<rparr>"

text \<open>A chain of eleven CNAME links from \<^verbatim>\<open>n0\<close> to \<^verbatim>\<open>n11\<close>; only the last name has
  an address record.\<close>

definition chain12 :: "(string \<times> string) list" where
  "chain12 =
     [(''n0'', ''n1''), (''n1'', ''n2''), (''n2'', ''n3''), (''n3'', ''n4''), (''n4'', ''n5''),
      (''n5'', ''n6''), (''n6'', ''n7''), (''n7'', ''n8''), (''n8'', ''n9''), (''n9'', ''n10''),
      (''n10'', ''n11'')]"

definition chain12_dns :: dns_env where
  "chain12_dns =
     \<lparr>dnsResolve4 = (\<lambda>d. if d = ''n11'' then Inr [''192.0.2.7''] else Inl ''queryA ENOTIMP''),
      dnsResolveCname = (\<lambda>d. case map_of chain12 d of
                                 Some target \<Rightarrow> Inr [target]
                               | None \<Rightarrow> Inl ''queryCname ENOTIMP''),
      dnsResolveA = (\<lambda>d. if d = ''n11'' then Inr [''192.0.2.7''] else Inl ''queryA ENOTIMP''),
      dnsLookupAll = (\<lambda>d. Inl ''getaddrinfo EAI_AGAIN''),
      dnsLookupOne = (\<lambda>d. Inl ''getaddrinfo EAI_AGAIN'')\<rparr>"

text \<open>The \<^verbatim>\<open>visited\<close> set after the invocations on \<^verbatim>\<open>n0\<close> to \<^verbatim>\<open>n10\<close>.\<close>

definition eleven_visited :: resolver_state where
  "eleven_visited =
     \<lparr>visited = set [''n0'', ''n1'', ''n2'', ''n3'', ''n4'', ''n5'', ''n6'', ''n7'', ''n8'', ''n9'', ''n10''],
      queries = [], refused = []\<rparr>"

text \<open>A DNS layer in which \<^verbatim>\<open>a.example\<close> has one address.\<close>

definition simple_dns :: dns_env where
  "simple_dns =
     \<lparr>dnsResolve4 = (\<lambda>d. if d = ''a.example'' then Inr [''192.0.2.1''] else Inl ''queryA ENOTFOUND''),
      dnsResolveCname = (\<lambda>d. Inl ''queryCname ENODATA''),
      dnsResolveA = (\<lambda>d. if d = ''a.example'' then Inr [''192.0.2.1''] else Inl ''queryA ENOTFOUND''),
      dnsLookupAll = (\<lambda>d. if d = ''a.example'' then Inr (AddressArray [''192.0.2.1''])
                            else Inl ''getaddrinfo ENOTFOUND''),
      dnsLookupOne = (\<lambda>d. if d = ''a.example'' then Inr ''192.0.2.1''
                            else Inl ''getaddrinfo ENOTFOUND'')\<rparr>"

text \<open>Probes for which the WebSocket upgrade succeeds on the path \<^verbatim>\<open>/ws\<close> only.\<close>

definition path_probes :: probe_env where
  "path_probes =
     \<lparr>lookupGeoIP = (\<lambda>a. Resolved None),
      testTLS = (\<lambda>a p h. Resolved ()),
      testWebSocket = (\<lambda>a p h w. if w = ''/ws'' then Resolved (Some \<lparr>connected_ws = True, protocol = None\<rparr>)
                                   else Rejected (Some ''Unexpected server response: 404'')),
      cdnTraceRequest = (\<lambda>a p h. HttpEnd 200 ''fl=29f1 warp=off''),
      DISABLE_WEBSOCKET = False,
      DISABLE_CDN_TRACE = False,
      tlsElapsed = (\<lambda>a. 12),
      wsElapsed = (\<lambda>a. 15)\<rparr>"

definition fresh_state :: server_state where
  "fresh_state = \<lparr>requestCache = Map.empty, rateLimitMap = Map.empty\<rparr>"

definition domain_request :: request where
  "domain_request =
     \<lparr>query_ip = Some ''a.example'', query_port = None, query_host = Some ''example.com'',
      query_wsPath = Some ''/ws'', clientIp = ''203.0.113.9''\<rparr>"

definition literal_request :: request where
  "literal_request =
     \<lparr>query_ip = Some ''1.2.3.4'', query_port = None, query_host = Some ''example.com'',
      query_wsPath = None, clientIp = ''203.0.113.9''\<rparr>"

definition later :: clock where
  "later = \<lparr>now_rate = 21000, now_lookup = 21000, now_payload = 21000, now_store = 21000\<rparr>"

definition much_later :: clock where
  "much_later = \<lparr>now_rate = 31000, now_lookup = 31000, now_payload = 31000, now_store = 31000\<rparr>"

definition malformed_request :: request where
  "malformed_request =
     \<lparr>query_ip = Some ''exa_mple'', query_port = None, query_host = None,
      query_wsPath = None, clientIp = ''203.0.113.9''\<rparr>"

text \<open>A first request for \<^verbatim>\<open>a.example\<close> on a fresh server at time 1000, and then, on the
  state that it leaves, the same request 20 seconds later, the same request 30 seconds
  later, and 20 seconds later a request that differs in the WebSocket path only.\<close>

definition first_run :: run where
  "first_run = api simple_dns path_probes noon domain_request fresh_state"

definition second_run :: run where
  "second_run = api simple_dns path_probes later domain_request (fst (snd first_run))"

definition third_run :: run where
  "third_run = api simple_dns path_probes much_later domain_request (fst (snd first_run))"

definition other_path_request :: request where
  "other_path_request = domain_request\<lparr>query_wsPath := Some ''/other''\<rparr>"

definition other_path_run :: run where
  "other_path_run = api simple_dns path_probes later other_path_request (fst (snd first_run))"

text \<open>The same request from a client that has used up its window.\<close>

definition limited_run :: run where
  "limited_run = api simple_dns path_probes noon domain_request exhausted_state"

text \<open>Three addresses again: the probes of the first all fail with ordinary errors, the
  second refuses TLS and WebSocket connections and cuts its response to the trace request
  off after the head, and the third accepts TLS and serves the trace.\<close>

definition stalled_probes :: probe_env where
  "stalled_probes =
     \<lparr>lookupGeoIP = (\<lambda>a. Resolved None),
      testTLS = (\<lambda>a p h. if a = ''192.0.2.3'' then Resolved ()
                          else Rejected (Some ''connect ECONNREFUSED'')),
      testWebSocket = (\<lambda>a p h w. Rejected (Some ''connect ECONNREFUSED'')),
      cdnTraceRequest = (\<lambda>a p h. if a = ''192.0.2.2'' then HttpCutOff
                                  else if a = ''192.0.2.3'' then HttpEnd 200 ''fl=29f1 warp=off''
                                  else HttpError ''socket hang up''),
      DISABLE_WEBSOCKET = False,
      DISABLE_CDN_TRACE = False,
      tlsElapsed = (\<lambda>a. 12),
      wsElapsed = (\<lambda>a. 15)\<rparr>"

text \<open>A DNS layer in which \<^verbatim>\<open>a.example\<close> has three addresses.\<close>

definition triple_dns :: dns_env where
  "triple_dns =
     \<lparr>dnsResolve4 = (\<lambda>d. if d = ''a.example'' then Inr [''192.0.2.1'', ''192.0.2.2'', ''192.0.2.3'']
                           else Inl ''queryA ENOTFOUND''),
      dnsResolveCname = (\<lambda>d. Inl ''queryCname ENODATA''),
      dnsResolveA = (\<lambda>d. Inl ''queryA ENOTFOUND''),
      dnsLookupAll = (\<lambda>d. Inl ''getaddrinfo ENOTFOUND''),
      dnsLookupOne = (\<lambda>d. Inl ''getaddrinfo ENOTFOUND'')\<rparr>"

text \<open>The request for \<^verbatim>\<open>a.example\<close> when the trace response of its second address is cut
  off.\<close>

definition stalled_run :: run where
  "stalled_run = api triple_dns stalled_probes noon domain_request fresh_state"

text \<open>A server state in which the client \<^verbatim>\<open>203.0.113.9\<close> has one request left in its
  window that opened at time 0; the request for \<^verbatim>\<open>a.example\<close> at time 1000, which uses
  it up; and, on the state that it leaves, the request that differs in the WebSocket path
  only, 20 seconds later.\<close>

definition nearly_exhausted_state :: server_state where
  "nearly_exhausted_state =
     \<lparr>requestCache = Map.empty,
      rateLimitMap = [''rate_203.0.113.9'' \<mapsto> \<lparr>firstRequest = 0, count = 59\<rparr>]\<rparr>"

definition last_allowed_run :: run where
  "last_allowed_run = api simple_dns path_probes noon domain_request nearly_exhausted_state"

definition refused_other_path_run :: run where
  "refused_other_path_run =
     api simple_dns path_probes later other_path_request (fst (snd last_allowed_run))"

section \<open>Properties of the resolver\<close>

lemma resolveDomain_ip_literal:
  "depth \<le> DNS_MAX_RECURSION_DEPTH \<Longrightarrow> domain \<notin> visited st \<Longrightarrow> isIPAddress domain \<Longrightarrow>
   resolveDomain env domain st depth = (Inr [domain], st\<lparr>visited := insert domain (visited st)\<rparr>)"
  by (subst resolveDomain.simps) (simp add: Let_def)

text \<open>
  Claim C9.  For every input string that is an IP literal, \<^verbatim>\<open>resolveDomain\<close>, called
  with the default \<^verbatim>\<open>visited\<close> set and depth 0, returns exactly the singleton list
  holding that string, and no query has been sent to the DNS layer (the list of queries
  of the final state is empty, and so is the list of refused invocations).
\<close>

theorem resolve_ip_literal_singleton:
  "isIPAddress domain \<Longrightarrow>
   resolve env domain = (Inr [domain], \<lparr>visited = {domain}, queries = [], refused = []\<rparr>)"
  by (simp add: resolve_def resolveDomain_ip_literal)

theorem resolve_ip_literal_singleton_witness:
  "isIPAddress ''1.2.3.4'' \<and>
   resolve unreachable_dns ''1.2.3.4''
     = (Inr [''1.2.3.4''], \<lparr>visited = {''1.2.3.4''}, queries = [], refused = []\<rparr>)"
proof -
  have lit: "isIPAddress ''1.2.3.4''"
    by code_simp
  show ?thesis
    using lit resolve_ip_literal_singleton [OF lit, of unreachable_dns] by simp
qed



text \<open>What the outermost call can return: the two guards pass, so the result is a
  non-empty list of addresses or one of the two errors of the last statements.\<close>

lemma resolve_outcomes:
  "(\<exists>ips. ips \<noteq> [] \<and> fst (resolve env domain) = Inr ips)
   \<or> fst (resolve env domain) = Inl (NoRecords domain)
   \<or> fst (resolve env domain) = Inl (DomainNotExist domain)"
proof -
  have tail: "\<And>ips st. (ips \<noteq> [] \<and> fst (conclude domain ips st) = Inr ips)
      \<or> fst (conclude domain ips st) = Inl (NoRecords domain)
      \<or> fst (conclude domain ips st) = Inl (DomainNotExist domain)"
    by (simp add: conclude_def rethrow_def)
  show ?thesis
  proof (cases "isIPAddress domain")
    case True
    then show ?thesis
      by (simp add: resolve_def resolveDomain_ip_literal)
  next
    case False
    then have "\<exists>ips st. resolveDomain env domain \<lparr>visited = {}, queries = [], refused = []\<rparr> 0
        = conclude domain ips st"
      by (subst resolveDomain.simps)
         (simp add: Let_def split_beta DNS_MAX_RECURSION_DEPTH_def, intro exI, rule refl)
    then obtain ips st where "resolve env domain = conclude domain ips st"
      unfolding resolve_def by blast
    then show ?thesis
      using tail [of ips st] by auto
  qed
qed

lemma resolve_never_guard_error:
  "fst (resolve env domain) \<noteq> Inl CnameCycle \<and> fst (resolve env domain) \<noteq> Inl DepthExceeded"
  using resolve_outcomes [of env domain] by auto

lemma visited_sent [simp]: "visited (sent q st) = visited st"
  by (simp add: sent_def)

lemma refused_sent [simp]: "refused (sent q st) = refused st"
  by (simp add: sent_def)

lemma visited_refuse [simp]: "visited (refuse d n e st) = visited st"
  by (simp add: refuse_def)

lemma refused_refuse [simp]: "refused (refuse d n e st) = refused st @ [(d, n, e)]"
  by (simp add: refuse_def)

lemma snd_conclude [simp]: "snd (conclude domain ips st) = st"
  by (simp add: conclude_def)






text \<open>On two names that point at each other the cycle error is thrown by the third
  invocation and dropped by the handler of method 2 of the second.\<close>

lemma short_cycle_error_dropped:
  "fst (resolve pair_dns ''a.example'') = Inl (NoRecords ''a.example'')"
  by code_simp

text \<open>
  Claim C3.  For a domain whose CNAME chain has more than 10 links, the claim expects
  \<^verbatim>\<open>resolveDomain\<close> to fail with the depth-exceeded error.  On the chain of eleven
  links from \<^verbatim>\<open>n0\<close> to \<^verbatim>\<open>n11\<close> the invocation at depth 11 throws that error, but the
  handler of method 2 one level up drops it, and the resolution of \<^verbatim>\<open>n0\<close> fails with
  the "no records" error instead; the chain of ten links from \<^verbatim>\<open>n1\<close> resolves.
\<close>

theorem long_chain_depth_error_dropped:
  "fst (resolveDomain chain12_dns ''n11'' eleven_visited 11) = Inl DepthExceeded
   \<and> fst (resolve chain12_dns ''n0'') = Inl (NoRecords ''n0'')
   \<and> fst (resolve chain12_dns ''n1'') = Inr [''192.0.2.7'']"
  by code_simp


section \<open>Properties of the rate limiter\<close>

lemma checkRateLimit_first:
  "m (''rate_'' @ client) = None \<Longrightarrow>
   checkRateLimit now client m = (True, m(''rate_'' @ client \<mapsto> \<lparr>firstRequest = now, count = 1\<rparr>))"
  by (simp add: checkRateLimit_def)

lemma checkRateLimit_inside:
  "m (''rate_'' @ client) = Some r \<Longrightarrow> now - firstRequest r \<le> RATE_LIMIT_WINDOW \<Longrightarrow>
   checkRateLimit now client m =
     (if count r < MAX_REQUESTS_PER_IP
      then (True, m(''rate_'' @ client \<mapsto> r\<lparr>count := count r + 1\<rparr>))
      else (False, m))"
  by (simp add: checkRateLimit_def)

lemma checkRateLimit_elapsed:
  "m (''rate_'' @ client) = Some r \<Longrightarrow> now - firstRequest r > RATE_LIMIT_WINDOW \<Longrightarrow>
   checkRateLimit now client m = (True, m(''rate_'' @ client \<mapsto> \<lparr>firstRequest = now, count = 1\<rparr>))"
  by (simp add: checkRateLimit_def)

lemma rate_run_inside:
  "m (''rate_'' @ client) = Some r \<Longrightarrow> \<forall>t\<in>set ts. t - firstRequest r \<le> RATE_LIMIT_WINDOW \<Longrightarrow>
   fst (rate_run ts client m) =
     replicate (min (length ts) (MAX_REQUESTS_PER_IP - count r)) True
     @ replicate (length ts - (MAX_REQUESTS_PER_IP - count r)) False"
proof (induction ts arbitrary: m r)
  case Nil
  then show ?case by simp
next
  case (Cons t ts)
  have inside: "t - firstRequest r \<le> RATE_LIMIT_WINDOW"
    using Cons.prems(2) by simp
  show ?case
  proof (cases "count r < MAX_REQUESTS_PER_IP")
    case True
    let ?r = "r\<lparr>count := count r + 1\<rparr>"
    let ?m = "m(''rate_'' @ client \<mapsto> ?r)"
    have step: "checkRateLimit t client m = (True, ?m)"
      using checkRateLimit_inside [of m client r t] Cons.prems(1) inside True by simp
    have "fst (rate_run ts client ?m) =
        replicate (min (length ts) (MAX_REQUESTS_PER_IP - count ?r)) True
        @ replicate (length ts - (MAX_REQUESTS_PER_IP - count ?r)) False"
      using Cons.prems(2) by (intro Cons.IH) simp_all
    moreover have "min (Suc (length ts)) (MAX_REQUESTS_PER_IP - count r)
        = Suc (min (length ts) (MAX_REQUESTS_PER_IP - count ?r))"
      using True by simp
    moreover have "Suc (length ts) - (MAX_REQUESTS_PER_IP - count r)
        = length ts - (MAX_REQUESTS_PER_IP - count ?r)"
      using True by simp
    ultimately show ?thesis
      using step by (simp add: split_beta)
  next
    case False
    have step: "checkRateLimit t client m = (False, m)"
      using checkRateLimit_inside [of m client r t] Cons.prems(1) inside False by simp
    have "fst (rate_run ts client m) =
        replicate (min (length ts) (MAX_REQUESTS_PER_IP - count r)) True
        @ replicate (length ts - (MAX_REQUESTS_PER_IP - count r)) False"
      using Cons.prems by (intro Cons.IH) simp_all
    then show ?thesis
      using step False by (simp add: split_beta)
  qed
qed

lemma rate_run_full_window:
  assumes "m (''rate_'' @ client) = None"
    and "length ts = MAX_REQUESTS_PER_IP"
    and "\<forall>t\<in>set ts. t - now \<le> RATE_LIMIT_WINDOW"
  shows "fst (rate_run (now # ts) client m) = replicate MAX_REQUESTS_PER_IP True @ [False]"
proof -
  let ?r = "\<lparr>firstRequest = now, count = 1\<rparr>"
  let ?m = "m(''rate_'' @ client \<mapsto> ?r)"
  obtain n where n: "MAX_REQUESTS_PER_IP = Suc n"
    by (cases MAX_REQUESTS_PER_IP) (auto simp: MAX_REQUESTS_PER_IP_def)
  have "fst (rate_run ts client ?m) =
      replicate (min (length ts) (MAX_REQUESTS_PER_IP - count ?r)) True
      @ replicate (length ts - (MAX_REQUESTS_PER_IP - count ?r)) False"
    using assms(3) by (intro rate_run_inside) simp_all
  then have "fst (rate_run ts client ?m) = replicate n True @ [False]"
    using assms(2) by (simp add: n)
  then show ?thesis
    using checkRateLimit_first [of m client now] assms(1) by (simp add: split_beta n)
qed

lemma gate_rate_limited:
  "length targetIPs \<le> MAX_IP_COUNT \<Longrightarrow>
   \<not> fst (checkRateLimit (now_rate clk) client (rateLimitMap st)) \<Longrightarrow>
   fst (rate_limit_gate penv clk client ipv isDom portv hostv wsPath targetIPs st trace)
     = Some \<lparr>status = 429, body = ErrorBody TooManyRequests\<rparr>"
  by (simp add: rate_limit_gate_def respond_error_def split_beta Let_def)


text \<open>
  Claim C5.  For a fixed client identity: the first request (no record for the client)
  is allowed and opens a window with count 1; a later request inside the window (the
  clock is at most 60000 ms past the start of the window) is allowed if and only if the
  count is below \<^verbatim>\<open>MAX_REQUESTS_PER_IP\<close>, and an allowed request increments the count
  while a refused one leaves the record as it is; hence of \<^verbatim>\<open>MAX_REQUESTS_PER_IP\<close> + 1
  requests in one window exactly the last is refused; a refused request that has reached
  the rate-limit gate of the handler is answered with status 429; and the first request after the
  window has elapsed is allowed and opens a new window with count 1.
\<close>

theorem rate_limit_window:
  "(m0 (''rate_'' @ client) = None \<longrightarrow>
      checkRateLimit now0 client m0
        = (True, m0(''rate_'' @ client \<mapsto> \<lparr>firstRequest = now0, count = 1\<rparr>)))
   \<and> (m1 (''rate_'' @ client) = Some r1 \<and> now1 - firstRequest r1 \<le> RATE_LIMIT_WINDOW \<longrightarrow>
        fst (checkRateLimit now1 client m1) = (count r1 < MAX_REQUESTS_PER_IP)
        \<and> snd (checkRateLimit now1 client m1)
            = (if count r1 < MAX_REQUESTS_PER_IP
               then m1(''rate_'' @ client \<mapsto> r1\<lparr>count := count r1 + 1\<rparr>) else m1))
   \<and> (m0 (''rate_'' @ client) = None \<and> length ts = MAX_REQUESTS_PER_IP
        \<and> (\<forall>t\<in>set ts. t - now0 \<le> RATE_LIMIT_WINDOW) \<longrightarrow>
        fst (rate_run (now0 # ts) client m0) = replicate MAX_REQUESTS_PER_IP True @ [False])
   \<and> (length targetIPs \<le> MAX_IP_COUNT
        \<and> \<not> fst (checkRateLimit (now_rate clk) client (rateLimitMap st)) \<longrightarrow>
        fst (rate_limit_gate penv clk client ipv isDom portv hostv wsPath targetIPs st trace)
          = Some \<lparr>status = 429, body = ErrorBody TooManyRequests\<rparr>)
   \<and> (m2 (''rate_'' @ client) = Some r2 \<and> now2 - firstRequest r2 > RATE_LIMIT_WINDOW \<longrightarrow>
        checkRateLimit now2 client m2
          = (True, m2(''rate_'' @ client \<mapsto> \<lparr>firstRequest = now2, count = 1\<rparr>)))"
proof (intro conjI impI)
  assume "m0 (''rate_'' @ client) = None"
  then show "checkRateLimit now0 client m0
      = (True, m0(''rate_'' @ client \<mapsto> \<lparr>firstRequest = now0, count = 1\<rparr>))"
    by (rule checkRateLimit_first)
next
  assume "m1 (''rate_'' @ client) = Some r1 \<and> now1 - firstRequest r1 \<le> RATE_LIMIT_WINDOW"
  then show "fst (checkRateLimit now1 client m1) = (count r1 < MAX_REQUESTS_PER_IP)"
    using checkRateLimit_inside [of m1 client r1 now1] by simp
next
  assume "m1 (''rate_'' @ client) = Some r1 \<and> now1 - firstRequest r1 \<le> RATE_LIMIT_WINDOW"
  then show "snd (checkRateLimit now1 client m1)
      = (if count r1 < MAX_REQUESTS_PER_IP
         then m1(''rate_'' @ client \<mapsto> r1\<lparr>count := count r1 + 1\<rparr>) else m1)"
    using checkRateLimit_inside [of m1 client r1 now1] by simp
next
  assume "m0 (''rate_'' @ client) = None \<and> length ts = MAX_REQUESTS_PER_IP
      \<and> (\<forall>t\<in>set ts. t - now0 \<le> RATE_LIMIT_WINDOW)"
  then show "fst (rate_run (now0 # ts) client m0) = replicate MAX_REQUESTS_PER_IP True @ [False]"
    using rate_run_full_window [of m0 client ts now0] by blast
next
  assume "length targetIPs \<le> MAX_IP_COUNT
      \<and> \<not> fst (checkRateLimit (now_rate clk) client (rateLimitMap st))"
  then show "fst (rate_limit_gate penv clk client ipv isDom portv hostv wsPath targetIPs st trace)
      = Some \<lparr>status = 429, body = ErrorBody TooManyRequests\<rparr>"
    using gate_rate_limited by blast
next
  assume "m2 (''rate_'' @ client) = Some r2 \<and> now2 - firstRequest r2 > RATE_LIMIT_WINDOW"
  then show "checkRateLimit now2 client m2
      = (True, m2(''rate_'' @ client \<mapsto> \<lparr>firstRequest = now2, count = 1\<rparr>))"
    using checkRateLimit_elapsed [of m2 client r2 now2] by simp
qed

theorem rate_limit_window_witness:
  "checkRateLimit 0 ''203.0.113.9'' Map.empty
     = (True, [''rate_203.0.113.9'' \<mapsto> \<lparr>firstRequest = 0, count = 1\<rparr>])
   \<and> fst (checkRateLimit 59000 ''203.0.113.9'' [''rate_203.0.113.9'' \<mapsto> \<lparr>firstRequest = 0, count = 59\<rparr>])
   \<and> snd (checkRateLimit 59000 ''203.0.113.9'' [''rate_203.0.113.9'' \<mapsto> \<lparr>firstRequest = 0, count = 59\<rparr>])
       = [''rate_203.0.113.9'' \<mapsto> \<lparr>firstRequest = 0, count = 60\<rparr>]
   \<and> fst (rate_run (0 # replicate 60 60000) ''203.0.113.9'' Map.empty) = replicate 60 True @ [False]
   \<and> fst (rate_limit_gate failing_probes noon ''203.0.113.9'' ''192.0.2.1'' False None ''example.com'' ''/''
            [''192.0.2.1''] exhausted_state [])
       = Some \<lparr>status = 429, body = ErrorBody TooManyRequests\<rparr>
   \<and> checkRateLimit 60001 ''203.0.113.9'' [''rate_203.0.113.9'' \<mapsto> \<lparr>firstRequest = 0, count = 60\<rparr>]
       = (True, [''rate_203.0.113.9'' \<mapsto> \<lparr>firstRequest = 60001, count = 1\<rparr>])"
  using rate_limit_window [of Map.empty "''203.0.113.9''" 0
      "[''rate_203.0.113.9'' \<mapsto> \<lparr>firstRequest = 0, count = 59\<rparr>]" "\<lparr>firstRequest = 0, count = 59\<rparr>" 59000
      "replicate 60 60000" "[''192.0.2.1'']" noon exhausted_state
      failing_probes "''192.0.2.1''" False None "''example.com''" "''/''" "[]"
      "[''rate_203.0.113.9'' \<mapsto> \<lparr>firstRequest = 0, count = 60\<rparr>]" "\<lparr>firstRequest = 0, count = 60\<rparr>" 60001]
  by (simp add: RATE_LIMIT_WINDOW_def MAX_REQUESTS_PER_IP_def MAX_IP_COUNT_def
        exhausted_state_def noon_def checkRateLimit_def)

section \<open>Properties of the CDN trace probe\<close>









lemma testCDNTrace_pending:
  "testCDNTrace outcome = Pending \<longleftrightarrow> outcome = HttpCutOff"
  by (cases outcome) (auto simp: testCDNTrace_def Let_def)




section \<open>Properties of the detection stage\<close>

lemma promise_all_map:
  "promise_all (map f xs) = (if \<forall>x\<in>set xs. f x \<noteq> None then Some (map (the \<circ> f) xs) else None)"
  by (induction xs) (auto split: option.splits)

lemma promise_all_Some:
  "promise_all (map f xs) = Some vs \<longleftrightarrow> (\<forall>x\<in>set xs. f x \<noteq> None) \<and> vs = map (the \<circ> f) xs"
  by (auto simp: promise_all_map)

lemma promise_all_None:
  "promise_all (map f xs) = None \<longleftrightarrow> (\<exists>x\<in>set xs. f x = None)"
  by (auto simp: promise_all_map)

text \<open>When every detection that is left returns, the loop returns the results in the order
  of the addresses, and has started every detection.\<close>

lemma detect_batches_return:
  "\<forall>a\<in>set (drop i targetIPs). detect a \<noteq> None \<Longrightarrow>
   detect_batches detect targetIPs i acc started
     = (Some (acc @ map (the \<circ> detect) (drop i targetIPs)), started @ drop i targetIPs)"
proof (induction detect targetIPs i acc started rule: detect_batches.induct)
  case (1 detect targetIPs i acc started)
  show ?case
  proof (cases "i < length targetIPs")
    case True
    let ?batch = "take MAX_CONCURRENT (drop i targetIPs)"
    have batch: "promise_all (map detect ?batch) = Some (map (the \<circ> detect) ?batch)"
      using "1.prems" by (auto simp: promise_all_Some dest: in_set_takeD)
    have rest: "\<forall>a\<in>set (drop (i + MAX_CONCURRENT) targetIPs). detect a \<noteq> None"
      using "1.prems" by (metis add.commute drop_drop in_set_dropD)
    have "detect_batches detect targetIPs i acc started =
        detect_batches detect targetIPs (i + MAX_CONCURRENT)
          (acc @ map (the \<circ> detect) ?batch) (started @ ?batch)"
      using True batch by (subst detect_batches.simps) (simp add: Let_def)
    also have "\<dots> = (Some ((acc @ map (the \<circ> detect) ?batch)
          @ map (the \<circ> detect) (drop (i + MAX_CONCURRENT) targetIPs)),
        (started @ ?batch) @ drop (i + MAX_CONCURRENT) targetIPs)"
      using True batch rest by (intro "1.IH") simp_all
    also have "\<dots> = (Some (acc @ map (the \<circ> detect) (?batch @ drop MAX_CONCURRENT (drop i targetIPs))),
        started @ (?batch @ drop MAX_CONCURRENT (drop i targetIPs)))"
      by (simp add: add.commute)
    also have "\<dots> = (Some (acc @ map (the \<circ> detect) (drop i targetIPs)), started @ drop i targetIPs)"
      by (simp only: append_take_drop_id)
    finally show ?thesis .
  next
    case False
    then show ?thesis
      by (subst detect_batches.simps) simp
  qed
qed

text \<open>When a detection that is left never returns, neither does the loop, and it has
  started the detections of some of the addresses that were left.\<close>

lemma detect_batches_blocked:
  "\<exists>a\<in>set (drop i targetIPs). detect a = None \<Longrightarrow>
   \<exists>n. 0 < n \<and> detect_batches detect targetIPs i acc started
         = (None, started @ take n (drop i targetIPs))"
proof (induction detect targetIPs i acc started rule: detect_batches.induct)
  case (1 detect targetIPs i acc started)
  have inside: "i < length targetIPs"
    using "1.prems" by (cases "i < length targetIPs") auto
  let ?batch = "take MAX_CONCURRENT (drop i targetIPs)"
  show ?case
  proof (cases "promise_all (map detect ?batch)")
    case None
    then have "detect_batches detect targetIPs i acc started = (None, started @ ?batch)"
      using inside by (subst detect_batches.simps) (simp add: Let_def)
    then show ?thesis
      by (intro exI [of _ MAX_CONCURRENT]) (simp add: MAX_CONCURRENT_def)
  next
    case (Some batchResults)
    then have fine: "\<forall>a\<in>set ?batch. detect a \<noteq> None"
      by (simp add: promise_all_Some)
    have "\<exists>a\<in>set (drop (i + MAX_CONCURRENT) targetIPs). detect a = None"
    proof -
      obtain a where a: "a \<in> set (drop i targetIPs)" "detect a = None"
        using "1.prems" by blast
      have "drop i targetIPs = ?batch @ drop (i + MAX_CONCURRENT) targetIPs"
        by (metis append_take_drop_id drop_drop add.commute)
      then have "a \<in> set ?batch \<or> a \<in> set (drop (i + MAX_CONCURRENT) targetIPs)"
        using a(1) by (metis Un_iff set_append)
      then show ?thesis
        using a(2) fine by blast
    qed
    then obtain n where n: "0 < n"
        "detect_batches detect targetIPs (i + MAX_CONCURRENT) (acc @ batchResults) (started @ ?batch)
           = (None, (started @ ?batch) @ take n (drop (i + MAX_CONCURRENT) targetIPs))"
      using "1.IH" [OF inside refl Some] by blast
    have "?batch @ take n (drop (i + MAX_CONCURRENT) targetIPs)
        = take (MAX_CONCURRENT + n) (drop i targetIPs)"
      by (simp add: take_add add.commute)
    then have "detect_batches detect targetIPs i acc started
        = (None, started @ take (MAX_CONCURRENT + n) (drop i targetIPs))"
      using inside Some n(2) by (subst detect_batches.simps) (simp add: Let_def)
    then show ?thesis
      by (intro exI [of _ "MAX_CONCURRENT + n"]) (simp add: MAX_CONCURRENT_def)
  qed
qed

lemma and_then_ip:
  "ip (fst r) = a \<Longrightarrow> (\<And>x. ip x = a \<Longrightarrow> ip (fst (stage x)) = a) \<Longrightarrow> ip (fst (and_then r stage)) = a"
  by (cases r) (auto simp: and_then_def split: stage_end.splits)

lemma geoip_stage_ip: "ip (fst (geoip_stage env a r)) = ip r"
  by (simp add: geoip_stage_def split: settled.splits option.splits)

lemma tls_stage_ip: "ip (fst (tls_stage env a p h r)) = ip r"
  by (simp add: tls_stage_def split: settled.splits option.splits)

lemma ws_stage_ip: "ip (fst (ws_stage env a p h w r)) = ip r"
  by (simp add: ws_stage_def Let_def split: settled.splits option.splits)

lemma cdn_stage_ip: "ip (fst (cdn_stage env a p h r)) = ip r"
  by (simp add: cdn_stage_def Let_def split: settled.splits option.splits)

lemma guarded_block_ip: "ip (fst (guarded_block env p h w a)) = a"
  unfolding guarded_block_def
  by (intro and_then_ip) (simp_all add: geoip_stage_ip tls_stage_ip ws_stage_ip cdn_stage_ip initial_result_def)

lemma detectSingleIP_ip: "detectSingleIP env p h w a = Some r \<Longrightarrow> ip r = a"
  using guarded_block_ip [of env p h w a]
  by (cases "guarded_block env p h w a") (auto simp: detectSingleIP_def split: stage_end.splits)

lemma and_then_error:
  "error (fst r) = None \<Longrightarrow> (\<And>x. error x = None \<Longrightarrow> error (fst (stage x)) = None) \<Longrightarrow>
   error (fst (and_then r stage)) = None"
  by (cases r) (auto simp: and_then_def split: stage_end.splits)

lemma geoip_stage_error: "error (fst (geoip_stage env a r)) = error r"
  by (simp add: geoip_stage_def split: settled.splits option.splits)

lemma tls_stage_error: "error (fst (tls_stage env a p h r)) = error r"
  by (simp add: tls_stage_def split: settled.splits option.splits)

lemma ws_stage_error: "error (fst (ws_stage env a p h w r)) = error r"
  by (simp add: ws_stage_def Let_def split: settled.splits option.splits)

lemma cdn_stage_error: "error (fst (cdn_stage env a p h r)) = error r"
  by (simp add: cdn_stage_def Let_def split: settled.splits option.splits)

lemma guarded_block_error: "error (fst (guarded_block env p h w a)) = None"
  unfolding guarded_block_def
  by (intro and_then_error)
     (simp_all add: geoip_stage_error tls_stage_error ws_stage_error cdn_stage_error initial_result_def)

lemma detectSingleIP_error:
  "detectSingleIP env p h w a = Some r \<Longrightarrow> error r = thrown (snd (guarded_block env p h w a))"
  using guarded_block_error [of env p h w a]
  by (cases "guarded_block env p h w a")
     (auto simp: detectSingleIP_def thrown_def split: stage_end.splits)

lemma and_then_checks:
  "checks (fst r) = all_false \<Longrightarrow> (\<And>x. checks x = all_false \<Longrightarrow> checks (fst (stage x)) = all_false) \<Longrightarrow>
   checks (fst (and_then r stage)) = all_false"
  by (cases r) (auto simp: and_then_def split: stage_end.splits)

lemma geoip_stage_checks: "checks (fst (geoip_stage env a r)) = checks r"
  by (simp add: geoip_stage_def split: settled.splits option.splits)

lemma tls_stage_checks:
  "(case testTLS env a p h of Resolved u \<Rightarrow> False | Rejected e \<Rightarrow> True | Pending \<Rightarrow> False) \<Longrightarrow>
   checks r = all_false \<Longrightarrow>
   checks (fst (tls_stage env a p h r)) = all_false"
  by (simp add: tls_stage_def all_false_def split: settled.splits)

lemma ws_stage_checks:
  "DISABLE_WEBSOCKET env
     \<or> (case testWebSocket env a p h w of Resolved i \<Rightarrow> False | Rejected e \<Rightarrow> True | Pending \<Rightarrow> False) \<Longrightarrow>
   checks r = all_false \<Longrightarrow>
   checks (fst (ws_stage env a p h w r)) = all_false"
  by (auto simp: ws_stage_def all_false_def Let_def split: settled.splits)

lemma cdn_stage_checks:
  "DISABLE_CDN_TRACE env
     \<or> (case testCDNTrace (cdnTraceRequest env a p h) of
           Resolved r \<Rightarrow> \<not> success r | Rejected e \<Rightarrow> True | Pending \<Rightarrow> False) \<Longrightarrow>
   checks r = all_false \<Longrightarrow>
   checks (fst (cdn_stage env a p h r)) = all_false"
  by (auto simp: cdn_stage_def all_false_def Let_def split: settled.splits)

lemma guarded_block_checks:
  assumes "probes_all_fail env p h w a"
  shows "checks (fst (guarded_block env p h w a)) = all_false"
  unfolding guarded_block_def
  using assms
  by (intro and_then_checks)
     (simp_all add: geoip_stage_checks tls_stage_checks ws_stage_checks cdn_stage_checks
        initial_result_def all_false_def probes_all_fail_def)

lemma detectSingleIP_checks:
  assumes "probes_all_fail env p h w a" "detectSingleIP env p h w a = Some r"
  shows "checks r = all_false"
  using guarded_block_checks [OF assms(1)] assms(2)
  by (cases "guarded_block env p h w a") (auto simp: detectSingleIP_def split: stage_end.splits)

text \<open>A detection whose probes all settle returns.\<close>

lemma and_then_returns:
  "snd r \<noteq> NeverReturns \<Longrightarrow> (\<And>x. snd (stage x) \<noteq> NeverReturns) \<Longrightarrow>
   snd (and_then r stage) \<noteq> NeverReturns"
  by (cases r) (auto simp: and_then_def split: stage_end.splits)

lemma read_message_returns [simp]: "read_message e \<noteq> NeverReturns"
  by (simp add: read_message_def split: option.splits)

lemma detectSingleIP_returns:
  assumes "lookupGeoIP env a \<noteq> Pending" "testTLS env a p h \<noteq> Pending"
    and "DISABLE_WEBSOCKET env \<or> testWebSocket env a p h w \<noteq> Pending"
    and "DISABLE_CDN_TRACE env \<or> cdnTraceRequest env a p h \<noteq> HttpCutOff"
  shows "detectSingleIP env p h w a \<noteq> None"
proof -
  have geo: "snd (geoip_stage env a r) \<noteq> NeverReturns" for r
    using assms(1) by (simp add: geoip_stage_def split: settled.splits option.splits)
  have tls: "snd (tls_stage env a p h r) \<noteq> NeverReturns" for r
    using assms(2) by (simp add: tls_stage_def split: settled.splits)
  have ws: "snd (ws_stage env a p h w r) \<noteq> NeverReturns" for r
    using assms(3) by (auto simp: ws_stage_def Let_def split: settled.splits)
  have cdn: "snd (cdn_stage env a p h r) \<noteq> NeverReturns" for r
    using assms(4) by (auto simp: cdn_stage_def Let_def testCDNTrace_pending split: settled.splits)
  have "snd (guarded_block env p h w a) \<noteq> NeverReturns"
    unfolding guarded_block_def by (intro and_then_returns geo tls ws cdn)
  then show ?thesis
    by (cases "guarded_block env p h w a") (auto simp: detectSingleIP_def split: stage_end.splits)
qed

text \<open>What the claim says of the detection stage holds of the runs in which the detection
  of every address returns: the batch loop then produces one result for each address, in
  the order of the addresses; the result of an address carries that address and is the
  result of detecting it alone; it has the three check marks false when no probe of the
  address succeeds; and it carries in \<^verbatim>\<open>error\<close> the exception that escaped the guarded
  block, if one did.\<close>

lemma results_when_all_detections_return:
  assumes "\<forall>a\<in>set targetIPs. detectSingleIP env p h w a \<noteq> None"
  shows "\<exists>detected.
      detect_batches (detectSingleIP env p h w) targetIPs 0 [] [] = (Some detected, targetIPs)
      \<and> length detected = length targetIPs
      \<and> (\<forall>i<length targetIPs.
           detectSingleIP env p h w (targetIPs ! i) = Some (detected ! i)
           \<and> ip (detected ! i) = targetIPs ! i
           \<and> (probes_all_fail env p h w (targetIPs ! i) \<longrightarrow> checks (detected ! i) = all_false)
           \<and> error (detected ! i) = thrown (snd (guarded_block env p h w (targetIPs ! i))))"
proof -
  let ?detected = "map (the \<circ> detectSingleIP env p h w) targetIPs"
  have run: "detect_batches (detectSingleIP env p h w) targetIPs 0 [] [] = (Some ?detected, targetIPs)"
    using detect_batches_return [of 0 targetIPs "detectSingleIP env p h w" "[]" "[]"] assms by simp
  have each: "detectSingleIP env p h w (targetIPs ! i) = Some (?detected ! i)" if "i < length targetIPs" for i
    using assms nth_mem [OF that] that by fastforce
  have props: "detectSingleIP env p h w (targetIPs ! i) = Some (?detected ! i)
      \<and> ip (?detected ! i) = targetIPs ! i
      \<and> (probes_all_fail env p h w (targetIPs ! i) \<longrightarrow> checks (?detected ! i) = all_false)
      \<and> error (?detected ! i) = thrown (snd (guarded_block env p h w (targetIPs ! i)))"
    if "i < length targetIPs" for i
    using each [OF that] detectSingleIP_ip [OF each [OF that]]
      detectSingleIP_checks [OF _ each [OF that]] detectSingleIP_error [OF each [OF that]]
    by blast
  have len: "length ?detected = length targetIPs"
    by simp
  show ?thesis
    using run len props by blast
qed

text \<open>And when the detection of one address never returns, the batch loop never returns:
  no address of the list gets a result.\<close>

lemma no_results_when_one_detection_never_returns:
  assumes "a \<in> set targetIPs" "detectSingleIP env p h w a = None"
  shows "fst (detect_batches (detectSingleIP env p h w) targetIPs 0 [] []) = None"
proof -
  have "\<exists>a\<in>set (drop 0 targetIPs). detectSingleIP env p h w a = None"
    using assms by auto
  from detect_batches_blocked [OF this, of "[]" "[]"] show ?thesis
    by auto
qed

text \<open>
  Claim C1 fails in the code.  The target list of the request for \<^verbatim>\<open>a.example\<close> has
  three addresses.  The detection of the first and of the third returns a result, each
  for its own address.  The second address cuts off its response to the trace request
  after the head, so that the promise of \<^verbatim>\<open>testCDNTrace\<close> stays pending and the
  detection of the second address never returns.  Then the batch loop, which has started
  the three detections, never returns either: no result is produced for any of the three
  addresses, nothing is written to the cache, and the request gets no response.
\<close>

theorem cut_off_trace_blocks_every_result:
  "target_addresses triple_dns domain_request = [''192.0.2.1'', ''192.0.2.2'', ''192.0.2.3'']
   \<and> map (\<lambda>a. map_option ip (detectSingleIP stalled_probes 443 ''example.com'' ''/ws'' a))
         [''192.0.2.1'', ''192.0.2.2'', ''192.0.2.3'']
       = [Some ''192.0.2.1'', None, Some ''192.0.2.3'']
   \<and> cdnTraceRequest stalled_probes ''192.0.2.2'' 443 ''example.com'' = HttpCutOff
   \<and> detect_batches (detectSingleIP stalled_probes 443 ''example.com'' ''/ws'')
         [''192.0.2.1'', ''192.0.2.2'', ''192.0.2.3''] 0 [] []
       = (None, [''192.0.2.1'', ''192.0.2.2'', ''192.0.2.3''])
   \<and> fst stalled_run = None
   \<and> filter (\<lambda>e. stage_of e = Detection) (snd (snd stalled_run))
       = [Detect ''192.0.2.1'', Detect ''192.0.2.2'', Detect ''192.0.2.3'']
   \<and> times_in CacheStore (snd (snd stalled_run)) = 0
   \<and> times_in Answer (snd (snd stalled_run)) = 0"
  by code_simp

section \<open>Properties of the input classification\<close>

lemma split_js_not_Nil: "split_js sep s \<noteq> []"
  by (induction s) (auto split: list.splits)

lemma split_js_chars:
  "c \<in> set s \<Longrightarrow> c = sep \<or> (\<exists>p\<in>set (split_js sep s). c \<in> set p)"
  by (induction s) (auto split: list.splits)

lemma split_js_no_sep: "sep \<notin> set s \<Longrightarrow> split_js sep s = [s]"
  by (induction s) auto

lemma split_js_hd:
  "hd (split_js sep s) \<noteq> [] \<Longrightarrow> s \<noteq> [] \<and> hd s = hd (hd (split_js sep s))"
  by (cases s) (auto split: list.splits)

lemma split_js_single: "split_js sep s = [p] \<Longrightarrow> s = p"
proof (induction s arbitrary: p)
  case Nil
  then show ?case by simp
next
  case (Cons c cs)
  obtain q qs where q: "split_js sep cs = q # qs"
    using split_js_not_Nil [of sep cs] by (cases "split_js sep cs") auto
  from Cons.prems q have "c \<noteq> sep" "qs = []" "p = c # q"
    by (auto split: if_splits)
  then show ?case
    using Cons.IH [of q] q by simp
qed

lemma split_js_last:
  "last (split_js sep s) \<noteq> [] \<Longrightarrow> s \<noteq> [] \<and> last s = last (last (split_js sep s))"
proof (induction s)
  case Nil
  then show ?case by simp
next
  case (Cons c cs)
  obtain p ps where ps: "split_js sep cs = p # ps"
    using split_js_not_Nil [of sep cs] by (cases "split_js sep cs") auto
  show ?case
  proof (cases "c = sep")
    case True
    then have "last (split_js sep (c # cs)) = last (split_js sep cs)"
      using ps by simp
    then show ?thesis
      using Cons by auto
  next
    case False
    show ?thesis
    proof (cases ps)
      case Nil
      then have "cs = p"
        using ps split_js_single by blast
      then show ?thesis
        using False ps Nil by simp
    next
      case (Cons q qs)
      then have same: "last (split_js sep (c # cs)) = last (split_js sep cs)"
        using False ps by simp
      then have "cs \<noteq> [] \<and> last cs = last (last (split_js sep cs))"
        using Cons.prems Cons.IH by simp
      then show ?thesis
        using same by simp
    qed
  qed
qed

lemma is_digit_alnum: "is_digit c \<Longrightarrow> is_alnum c"
  by (auto simp: is_digit_def is_alnum_def)

lemma isDomain_chars:
  "isDomain s \<longleftrightarrow> s \<noteq> [] \<and> is_alnum (hd s) \<and> is_alnum (last s) \<and> list_all is_domain_char s"
proof (cases s)
  case Nil
  then show ?thesis by (simp add: isDomain_def)
next
  case (Cons c cs)
  show ?thesis
  proof (cases cs rule: rev_cases)
    case Nil
    then show ?thesis
      using Cons by (auto simp: isDomain_def is_domain_char_def)
  next
    case (snoc ds d)
    then show ?thesis
      using Cons by (cases ds) (auto simp: isDomain_def is_domain_char_def split: list.splits)
  qed
qed

lemma ipv4_is_domain:
  assumes "isIPv4 s"
  shows "isDomain s"
proof -
  let ?parts = "split_js (CHR ''.'') s"
  have len: "length ?parts = 4"
    and each: "\<forall>p\<in>set ?parts. p \<noteq> [] \<and> list_all is_digit p"
    using assms by (auto simp: isIPv4_def ipv4Regex_def Let_def list_all_iff)
  have ne: "?parts \<noteq> []"
    using len by auto
  have first: "hd ?parts \<in> set ?parts" and final: "last ?parts \<in> set ?parts"
    using ne by simp_all
  have "hd ?parts \<noteq> []" "last ?parts \<noteq> []"
    using each first final by auto
  then have s: "s \<noteq> []" "hd s = hd (hd ?parts)" "last s = last (last ?parts)"
    using split_js_hd [of "CHR ''.''" s] split_js_last [of "CHR ''.''" s] by auto
  have "is_digit (hd (hd ?parts))"
    using each first \<open>hd ?parts \<noteq> []\<close> by (auto simp: list_all_iff)
  moreover have "is_digit (last (last ?parts))"
    using each final \<open>last ?parts \<noteq> []\<close> by (auto simp: list_all_iff)
  moreover have "list_all is_domain_char s"
    unfolding list_all_iff
  proof
    fix c assume "c \<in> set s"
    then consider "c = CHR ''.''" | p where "p \<in> set ?parts" "c \<in> set p"
      using split_js_chars [of c s "CHR ''.''"] by auto
    then show "is_domain_char c"
    proof cases
      case 1
      then show ?thesis by (simp add: is_domain_char_def)
    next
      case 2
      then have "is_digit c"
        using each by (auto simp: list_all_iff)
      then show ?thesis
        by (simp add: is_domain_char_def is_digit_alnum)
    qed
  qed
  ultimately show ?thesis
    using s by (simp add: isDomain_chars is_digit_alnum)
qed

lemma ipv6Regex_colon: "ipv6Regex s \<Longrightarrow> CHR '':'' \<in> set s"
proof -
  assume a: "ipv6Regex s"
  show ?thesis
  proof (rule ccontr)
    assume "CHR '':'' \<notin> set s"
    then have one: "split_js (CHR '':'') s = [s]"
      by (rule split_js_no_sep)
    have "\<not> starts_with s ''::''"
      using \<open>CHR '':'' \<notin> set s\<close> by (cases s) auto
    then show False
      using a one \<open>CHR '':'' \<notin> set s\<close> by (auto simp: ipv6Regex_def Let_def)
  qed
qed

lemma colon_not_domain_char: "\<not> is_domain_char (CHR '':'')"
  by (simp add: is_domain_char_def is_alnum_def)

lemma domain_no_colon: "isDomain s \<Longrightarrow> CHR '':'' \<notin> set s"
  using colon_not_domain_char by (auto simp: isDomain_chars list_all_iff)

lemma ipv6_not_domain: "\<not> (isIPv6 s \<and> isDomain s)"
  using ipv6Regex_colon [of s] domain_no_colon [of s] by (auto simp: isIPv6_def)

lemma isIPAddress_cases: "isIPAddress s \<longleftrightarrow> isIPv4 s \<or> isIPv6 s"
  by (auto simp: isIPAddress_def isIPv4_def isIPv6_def)

lemma api_rejects_unclassified:
  "parse_query req = Some (ipv, portv, hostv, wsPath) \<Longrightarrow> \<not> isIPAddress ipv \<Longrightarrow> \<not> isDomain ipv \<Longrightarrow>
   fst (api denv penv clk req st) = Some \<lparr>status = 400, body = ErrorBody InvalidAddressOrDomain\<rparr>"
  by (simp add: api_def respond_error_def)


text \<open>
  Claim C8, as amended.  \<^verbatim>\<open>isIPAddress\<close> holds exactly for the strings of its IPv4
  branch and those of its IPv6 branch, and the two branches exclude each other; a string
  of the IPv6 branch never satisfies \<^verbatim>\<open>isDomain\<close>.  But every string of the IPv4
  branch also satisfies \<^verbatim>\<open>isDomain\<close>, so an accepted IPv4 literal carries both
  classifications.  A request whose address part satisfies neither \<^verbatim>\<open>isIPAddress\<close> nor
  \<^verbatim>\<open>isDomain\<close> is rejected with status 400.
\<close>

theorem classification_of_inputs:
  "(isIPAddress s \<longleftrightarrow> isIPv4 s \<or> isIPv6 s)
   \<and> \<not> (isIPv4 s \<and> isIPv6 s)
   \<and> \<not> (isIPv6 s \<and> isDomain s)
   \<and> (isIPv4 s \<longrightarrow> isDomain s)
   \<and> (parse_query req = Some (s, portv, hostv, wsPath) \<and> \<not> isIPAddress s \<and> \<not> isDomain s \<longrightarrow>
        fst (api denv penv clk req st)
          = Some \<lparr>status = 400, body = ErrorBody InvalidAddressOrDomain\<rparr>)"
  using isIPAddress_cases [of s] ipv6_not_domain [of s] ipv4_is_domain [of s]
    api_rejects_unclassified [of req s portv hostv wsPath denv penv clk st]
  by (auto simp: isIPv6_def isIPv4_def)

theorem classification_of_inputs_witness:
  "isIPv4 ''1.2.3.4'' \<and> isDomain ''1.2.3.4''
   \<and> isIPv6 ''::ffff'' \<and> \<not> isDomain ''::ffff''
   \<and> parse_query malformed_request = Some (''exa_mple'', None, DEFAULT_HOST, DEFAULT_WS_PATH)
   \<and> fst (api unreachable_dns failing_probes noon malformed_request fresh_state)
       = Some \<lparr>status = 400, body = ErrorBody InvalidAddressOrDomain\<rparr>"
proof -
  have v4: "isIPv4 ''1.2.3.4''"
    by code_simp
  have v6: "isIPv6 ''::ffff''"
    by code_simp
  have parsed: "parse_query malformed_request = Some (''exa_mple'', None, DEFAULT_HOST, DEFAULT_WS_PATH)"
    by code_simp
  have neither: "\<not> isIPAddress ''exa_mple''" "\<not> isDomain ''exa_mple''"
    by code_simp+
  show ?thesis
    using v4 v6 parsed neither
      classification_of_inputs [of "''1.2.3.4''"]
      classification_of_inputs [of "''::ffff''"]
      classification_of_inputs [of "''exa_mple''" malformed_request None DEFAULT_HOST DEFAULT_WS_PATH
        unreachable_dns failing_probes noon fresh_state]
    by blast
qed

text \<open>The claim as written fails on an IPv4 literal: it is classified as an address and as
  a domain, and the request is accepted.\<close>

theorem ipv4_literal_counterexample:
  "isIPv4 ''1.2.3.4'' \<and> isDomain ''1.2.3.4''
   \<and> map_option status (fst (api unreachable_dns failing_probes noon literal_request fresh_state))
       = Some 200"
  by code_simp

section \<open>The course of a request\<close>

lemma lookup_and_detect_hit:
  "requestCache st (cacheKey isDom ipv tp hostv) = Some e \<Longrightarrow>
   now_lookup clk - cached_at e < CACHE_DURATION \<Longrightarrow>
   lookup_and_detect penv clk ipv isDom tp hostv wsPath ips st tr
     = (Some \<lparr>status = 200, body = PayloadBody (data e)\<rparr>, st,
        tr @ [CacheLookup (cacheKey isDom ipv tp hostv), Respond 200])"
  by (simp add: lookup_and_detect_def)

lemma lookup_and_detect_miss:
  "\<forall>e. requestCache st (cacheKey isDom ipv tp hostv) = Some e \<longrightarrow>
        \<not> now_lookup clk - cached_at e < CACHE_DURATION \<Longrightarrow>
   lookup_and_detect penv clk ipv isDom tp hostv wsPath ips st tr
     = (case detect_batches (detectSingleIP penv tp hostv wsPath) ips 0 [] [] of
          (None, started) \<Rightarrow>
            (None, st, tr @ [CacheLookup (cacheKey isDom ipv tp hostv)] @ map Detect started)
        | (Some detected, started) \<Rightarrow>
            (Some \<lparr>status = 200,
                   body = PayloadBody (response_payload clk ipv isDom tp hostv ips detected)\<rparr>,
             st\<lparr>requestCache := (requestCache st)(cacheKey isDom ipv tp hostv
                   \<mapsto> \<lparr>data = response_payload clk ipv isDom tp hostv ips detected,
                        cached_at = now_store clk\<rparr>)\<rparr>,
             tr @ [CacheLookup (cacheKey isDom ipv tp hostv)] @ map Detect started
                @ [CacheWrite (cacheKey isDom ipv tp hostv), Respond 200]))"
  by (cases "requestCache st (cacheKey isDom ipv tp hostv)")
     (simp_all add: lookup_and_detect_def Let_def split: prod.splits option.splits)

text \<open>The three ways in which the handler goes on from the cache lookup.\<close>

lemma lookup_forms:
  assumes run: "lookup_and_detect penv clk ipv isDom tp hostv wsPath ips st tr = (resp, st', tr')"
  shows "(\<exists>e. requestCache st (cacheKey isDom ipv tp hostv) = Some e
            \<and> now_lookup clk - cached_at e < CACHE_DURATION
            \<and> resp = Some \<lparr>status = 200, body = PayloadBody (data e)\<rparr> \<and> st' = st
            \<and> tr' = tr @ [CacheLookup (cacheKey isDom ipv tp hostv), Respond 200])
    \<or> ((\<forall>e. requestCache st (cacheKey isDom ipv tp hostv) = Some e \<longrightarrow>
              \<not> now_lookup clk - cached_at e < CACHE_DURATION)
        \<and> (\<exists>detected.
              detect_batches (detectSingleIP penv tp hostv wsPath) ips 0 [] [] = (Some detected, ips)
              \<and> resp = Some \<lparr>status = 200,
                     body = PayloadBody (response_payload clk ipv isDom tp hostv ips detected)\<rparr>
              \<and> st' = st\<lparr>requestCache := (requestCache st)(cacheKey isDom ipv tp hostv
                     \<mapsto> \<lparr>data = response_payload clk ipv isDom tp hostv ips detected,
                          cached_at = now_store clk\<rparr>)\<rparr>
              \<and> tr' = tr @ [CacheLookup (cacheKey isDom ipv tp hostv)] @ map Detect ips
                     @ [CacheWrite (cacheKey isDom ipv tp hostv), Respond 200]))
    \<or> ((\<forall>e. requestCache st (cacheKey isDom ipv tp hostv) = Some e \<longrightarrow>
              \<not> now_lookup clk - cached_at e < CACHE_DURATION)
        \<and> (\<exists>m>0. ips \<noteq> [] \<and> resp = None \<and> st' = st
              \<and> tr' = tr @ [CacheLookup (cacheKey isDom ipv tp hostv)] @ map Detect (take m ips)))"
proof (cases "\<exists>e. requestCache st (cacheKey isDom ipv tp hostv) = Some e
    \<and> now_lookup clk - cached_at e < CACHE_DURATION")
  case True
  then obtain e where e: "requestCache st (cacheKey isDom ipv tp hostv) = Some e"
      "now_lookup clk - cached_at e < CACHE_DURATION"
    by blast
  from lookup_and_detect_hit [OF e, of penv wsPath ips tr] run
  have "resp = Some \<lparr>status = 200, body = PayloadBody (data e)\<rparr>" "st' = st"
      "tr' = tr @ [CacheLookup (cacheKey isDom ipv tp hostv), Respond 200]"
    by simp_all
  then show ?thesis
    using e by blast
next
  case False
  then have stale: "\<forall>e. requestCache st (cacheKey isDom ipv tp hostv) = Some e \<longrightarrow>
      \<not> now_lookup clk - cached_at e < CACHE_DURATION"
    by blast
  note miss = lookup_and_detect_miss [OF stale, of penv wsPath ips tr]
  show ?thesis
  proof (cases "\<forall>a\<in>set ips. detectSingleIP penv tp hostv wsPath a \<noteq> None")
    case True
    let ?detected = "map (the \<circ> detectSingleIP penv tp hostv wsPath) ips"
    have loop: "detect_batches (detectSingleIP penv tp hostv wsPath) ips 0 [] [] = (Some ?detected, ips)"
      using detect_batches_return [of 0 ips "detectSingleIP penv tp hostv wsPath" "[]" "[]"] True
      by simp
    have "resp = Some \<lparr>status = 200,
                     body = PayloadBody (response_payload clk ipv isDom tp hostv ips ?detected)\<rparr>"
      "st' = st\<lparr>requestCache := (requestCache st)(cacheKey isDom ipv tp hostv
                     \<mapsto> \<lparr>data = response_payload clk ipv isDom tp hostv ips ?detected,
                          cached_at = now_store clk\<rparr>)\<rparr>"
      "tr' = tr @ [CacheLookup (cacheKey isDom ipv tp hostv)] @ map Detect ips
                     @ [CacheWrite (cacheKey isDom ipv tp hostv), Respond 200]"
      using run miss loop by simp_all
    then show ?thesis
      using stale loop by blast
  next
    case False
    then have blocked: "\<exists>a\<in>set (drop 0 ips). detectSingleIP penv tp hostv wsPath a = None"
      by simp
    then have "ips \<noteq> []"
      by auto
    from detect_batches_blocked [OF blocked, of "[]" "[]"]
    obtain m where m: "0 < m"
        "detect_batches (detectSingleIP penv tp hostv wsPath) ips 0 [] [] = (None, take m ips)"
      by auto
    have "resp = None" "st' = st"
      "tr' = tr @ [CacheLookup (cacheKey isDom ipv tp hostv)] @ map Detect (take m ips)"
      using run miss m(2) by simp_all
    then show ?thesis
      using stale m(1) \<open>ips \<noteq> []\<close> by blast
  qed
qed

text \<open>The ways in which the handler goes on from the address-count limit.\<close>

lemma gate_forms:
  assumes run: "rate_limit_gate penv clk client ipv isDom portv hostv wsPath ips st tr = (resp, st', tr')"
  shows "(length ips > MAX_IP_COUNT
          \<and> resp = Some \<lparr>status = 400, body = ErrorBody (TooManyAddresses (length ips))\<rparr> \<and> st' = st
          \<and> tr' = tr @ [CountAddresses (length ips), Respond 400])
    \<or> (length ips \<le> MAX_IP_COUNT \<and> \<not> fst (checkRateLimit (now_rate clk) client (rateLimitMap st))
          \<and> resp = Some \<lparr>status = 429, body = ErrorBody TooManyRequests\<rparr>
          \<and> st' = st\<lparr>rateLimitMap := snd (checkRateLimit (now_rate clk) client (rateLimitMap st))\<rparr>
          \<and> tr' = tr @ [CountAddresses (length ips), RateLimitCheck client, Respond 429])
    \<or> (length ips \<le> MAX_IP_COUNT \<and> fst (checkRateLimit (now_rate clk) client (rateLimitMap st))
          \<and> (\<forall>tp. parse_port portv = Some tp \<longrightarrow> tp < 1 \<or> tp > 65535)
          \<and> resp = Some \<lparr>status = 400, body = ErrorBody InvalidPort\<rparr>
          \<and> st' = st\<lparr>rateLimitMap := snd (checkRateLimit (now_rate clk) client (rateLimitMap st))\<rparr>
          \<and> tr' = tr @ [CountAddresses (length ips), RateLimitCheck client, PortCheck, Respond 400])
    \<or> (length ips \<le> MAX_IP_COUNT \<and> fst (checkRateLimit (now_rate clk) client (rateLimitMap st))
          \<and> (\<exists>tp. parse_port portv = Some tp \<and> 1 \<le> tp \<and> tp \<le> 65535
                \<and> lookup_and_detect penv clk ipv isDom tp hostv wsPath ips
                     (st\<lparr>rateLimitMap := snd (checkRateLimit (now_rate clk) client (rateLimitMap st))\<rparr>)
                     (tr @ [CountAddresses (length ips), RateLimitCheck client, PortCheck])
                   = (resp, st', tr')))"
proof (cases "length ips > MAX_IP_COUNT")
  case True
  then show ?thesis
    using run by (auto simp: rate_limit_gate_def respond_error_def Let_def)
next
  case small: False
  obtain allowed lim where chk: "checkRateLimit (now_rate clk) client (rateLimitMap st) = (allowed, lim)"
    by (cases "checkRateLimit (now_rate clk) client (rateLimitMap st)") auto
  show ?thesis
  proof (cases allowed)
    case False
    then show ?thesis
      using run small chk by (auto simp: rate_limit_gate_def respond_error_def Let_def)
  next
    case True
    show ?thesis
    proof (cases "parse_port portv")
      case None
      then show ?thesis
        using run small chk True by (auto simp: rate_limit_gate_def respond_error_def Let_def)
    next
      case (Some tp)
      show ?thesis
      proof (cases "tp < 1 \<or> tp > 65535")
        case True
        then show ?thesis
          using run small chk \<open>allowed\<close> Some by (auto simp: rate_limit_gate_def respond_error_def Let_def)
      next
        case False
        then have "lookup_and_detect penv clk ipv isDom tp hostv wsPath ips
              (st\<lparr>rateLimitMap := lim\<rparr>)
              (tr @ [CountAddresses (length ips), RateLimitCheck client, PortCheck]) = (resp, st', tr')"
          using run small chk \<open>allowed\<close> Some by (simp add: rate_limit_gate_def Let_def)
        then show ?thesis
          using Some small chk \<open>allowed\<close> False by auto
      qed
    qed
  qed
qed

text \<open>The ways in which the handler gets to the address-count limit, or not.\<close>

lemma api_forms:
  assumes run: "api denv penv clk req st = (resp, st', tr')"
  shows "(target_addresses denv req = []
          \<and> (\<exists>err. resp = Some \<lparr>status = 400, body = ErrorBody err\<rparr>) \<and> st' = st
          \<and> tr' = ValidateInput # map DnsQuery (resolver_queries denv req) @ [Respond 400])
    \<or> (target_addresses denv req \<noteq> []
          \<and> (\<exists>ipv portv hostv wsPath.
                parse_query req = Some (ipv, portv, hostv, wsPath)
                \<and> rate_limit_gate penv clk (clientIp req) ipv (isDomain ipv) portv hostv wsPath
                     (target_addresses denv req) st
                     (ValidateInput # map DnsQuery (resolver_queries denv req))
                   = (resp, st', tr')))"
proof (cases "parse_query req")
  case None
  then show ?thesis
    using run by (auto simp: api_def respond_error_def resolver_queries_def target_addresses_def)
next
  case (Some parsed)
  obtain ipv portv hostv wsPath where parsed: "parsed = (ipv, portv, hostv, wsPath)"
    by (cases parsed) auto
  note pq = Some [unfolded parsed]
  show ?thesis
  proof (cases "isDomain ipv")
    case False
    then have qs: "resolver_queries denv req = []"
      using pq by (simp add: resolver_queries_def)
    show ?thesis
    proof (cases "isIPAddress ipv")
      case False
      then show ?thesis
        using run pq \<open>\<not> isDomain ipv\<close> qs
        by (auto simp: api_def respond_error_def target_addresses_def)
    next
      case True
      then have ts: "target_addresses denv req = [ipv]"
        using pq \<open>\<not> isDomain ipv\<close> by (simp add: target_addresses_def)
      have "rate_limit_gate penv clk (clientIp req) ipv False portv hostv wsPath [ipv] st [ValidateInput]
          = (resp, st', tr')"
        using run pq \<open>\<not> isDomain ipv\<close> True by (simp add: api_def)
      then show ?thesis
        using pq qs ts \<open>\<not> isDomain ipv\<close> by simp
    qed
  next
    case True
    obtain outcome rst where res: "resolve denv ipv = (outcome, rst)"
      by (cases "resolve denv ipv") auto
    have qs: "resolver_queries denv req = queries rst"
      using pq True res by (simp add: resolver_queries_def)
    show ?thesis
    proof (cases outcome)
      case (Inl err)
      then have "target_addresses denv req = []"
        using pq True res by (simp add: target_addresses_def)
      then show ?thesis
        using run pq True res qs Inl by (auto simp: api_def respond_error_def)
    next
      case (Inr ips)
      then have ts: "target_addresses denv req = ips"
        using pq True res by (simp add: target_addresses_def)
      show ?thesis
      proof (cases "ips = []")
        case True
        then show ?thesis
          using run pq \<open>isDomain ipv\<close> res qs Inr ts by (auto simp: api_def respond_error_def)
      next
        case False
        then have "rate_limit_gate penv clk (clientIp req) ipv True portv hostv wsPath ips st
            (ValidateInput # map DnsQuery (queries rst)) = (resp, st', tr')"
          using run pq \<open>isDomain ipv\<close> res Inr by (simp add: api_def)
        then show ?thesis
          using pq qs ts \<open>isDomain ipv\<close> False by simp
      qed
    qed
  qed
qed

lemma request_key_parsed:
  "parse_query req = Some (ipv, portv, hostv, wsPath) \<Longrightarrow> parse_port portv = Some tp \<Longrightarrow>
   request_key req = Some (cacheKey (isDomain ipv) ipv tp hostv)"
  by (simp add: request_key_def)

text \<open>The seven courses that a request can take: it is refused before the address-count
  limit (the \<^verbatim>\<open>ip\<close> parameter is missing or of no accepted form, or the resolution
  fails); it has too many addresses; it is refused by the rate limiter; its port is
  refused; it is served from the cache; it runs the detections, stores the response and
  sends it; or it starts detections of which one never returns.\<close>

lemma request_course:
  assumes run: "api denv penv clk req st = (resp, st', tr')"
  shows "(target_addresses denv req = []
      \<and> (\<exists>err. resp = Some \<lparr>status = 400, body = ErrorBody err\<rparr>) \<and> st' = st
      \<and> tr' = ValidateInput # map DnsQuery (resolver_queries denv req) @ [Respond 400])
    \<or> (target_addresses denv req \<noteq> [] \<and> length (target_addresses denv req) > MAX_IP_COUNT
      \<and> resp = Some \<lparr>status = 400, body = ErrorBody (TooManyAddresses (length (target_addresses denv req)))\<rparr>
      \<and> st' = st
      \<and> tr' = ValidateInput # map DnsQuery (resolver_queries denv req)
             @ [CountAddresses (length (target_addresses denv req)), Respond 400])
    \<or> (target_addresses denv req \<noteq> [] \<and> length (target_addresses denv req) \<le> MAX_IP_COUNT
      \<and> \<not> fst (rate_check clk req st)
      \<and> resp = Some \<lparr>status = 429, body = ErrorBody TooManyRequests\<rparr>
      \<and> st' = st\<lparr>rateLimitMap := snd (rate_check clk req st)\<rparr>
      \<and> tr' = ValidateInput # map DnsQuery (resolver_queries denv req)
             @ [CountAddresses (length (target_addresses denv req)), RateLimitCheck (clientIp req), Respond 429])
    \<or> (target_addresses denv req \<noteq> [] \<and> length (target_addresses denv req) \<le> MAX_IP_COUNT
      \<and> fst (rate_check clk req st) \<and> \<not> port_accepted req
      \<and> resp = Some \<lparr>status = 400, body = ErrorBody InvalidPort\<rparr>
      \<and> st' = st\<lparr>rateLimitMap := snd (rate_check clk req st)\<rparr>
      \<and> tr' = ValidateInput # map DnsQuery (resolver_queries denv req)
             @ [CountAddresses (length (target_addresses denv req)), RateLimitCheck (clientIp req), PortCheck, Respond 400])
    \<or> (target_addresses denv req \<noteq> [] \<and> length (target_addresses denv req) \<le> MAX_IP_COUNT
      \<and> fst (rate_check clk req st) \<and> port_accepted req
      \<and> (\<exists>k e. request_key req = Some k \<and> requestCache st k = Some e
            \<and> now_lookup clk - cached_at e < CACHE_DURATION
            \<and> resp = Some \<lparr>status = 200, body = PayloadBody (data e)\<rparr>
            \<and> st' = st\<lparr>rateLimitMap := snd (rate_check clk req st)\<rparr>
            \<and> tr' = ValidateInput # map DnsQuery (resolver_queries denv req)
                   @ [CountAddresses (length (target_addresses denv req)), RateLimitCheck (clientIp req), PortCheck,
                      CacheLookup k, Respond 200]))
    \<or> (target_addresses denv req \<noteq> [] \<and> length (target_addresses denv req) \<le> MAX_IP_COUNT
      \<and> fst (rate_check clk req st) \<and> port_accepted req
      \<and> (\<exists>k ipv portv hostv wsPath tp detected.
            parse_query req = Some (ipv, portv, hostv, wsPath) \<and> parse_port portv = Some tp
            \<and> request_key req = Some k
            \<and> (\<forall>e. requestCache st k = Some e \<longrightarrow> \<not> now_lookup clk - cached_at e < CACHE_DURATION)
            \<and> detect_batches (detectSingleIP penv tp hostv wsPath) (target_addresses denv req) 0 [] []
                = (Some detected, target_addresses denv req)
            \<and> resp = Some \<lparr>status = 200, body = PayloadBody
                  (response_payload clk ipv (isDomain ipv) tp hostv (target_addresses denv req) detected)\<rparr>
            \<and> st' = st\<lparr>rateLimitMap := snd (rate_check clk req st),
                    requestCache := (requestCache st)(k \<mapsto>
                      \<lparr>data = response_payload clk ipv (isDomain ipv) tp hostv (target_addresses denv req) detected,
                       cached_at = now_store clk\<rparr>)\<rparr>
            \<and> tr' = ValidateInput # map DnsQuery (resolver_queries denv req)
                   @ [CountAddresses (length (target_addresses denv req)), RateLimitCheck (clientIp req), PortCheck,
                      CacheLookup k] @ map Detect (target_addresses denv req) @ [CacheWrite k, Respond 200]))
    \<or> (target_addresses denv req \<noteq> [] \<and> length (target_addresses denv req) \<le> MAX_IP_COUNT
      \<and> fst (rate_check clk req st) \<and> port_accepted req
      \<and> (\<exists>k m. request_key req = Some k
            \<and> (\<forall>e. requestCache st k = Some e \<longrightarrow> \<not> now_lookup clk - cached_at e < CACHE_DURATION)
            \<and> 0 < m \<and> resp = None
            \<and> st' = st\<lparr>rateLimitMap := snd (rate_check clk req st)\<rparr>
            \<and> tr' = ValidateInput # map DnsQuery (resolver_queries denv req)
                   @ [CountAddresses (length (target_addresses denv req)), RateLimitCheck (clientIp req), PortCheck,
                      CacheLookup k] @ map Detect (take m (target_addresses denv req))))"
proof -
  from api_forms [OF run] show ?thesis
  proof (elim disjE conjE exE)
    fix err
    assume "target_addresses denv req = []" "resp = Some \<lparr>status = 400, body = ErrorBody err\<rparr>" "st' = st"
      "tr' = ValidateInput # map DnsQuery (resolver_queries denv req) @ [Respond 400]"
    then have "target_addresses denv req = []
      \<and> (\<exists>err. resp = Some \<lparr>status = 400, body = ErrorBody err\<rparr>) \<and> st' = st
      \<and> tr' = ValidateInput # map DnsQuery (resolver_queries denv req) @ [Respond 400]"
      by blast
    from this show ?thesis
      by - (rule disjI1, assumption)
  next
    fix ipv portv hostv wsPath
    assume ts: "target_addresses denv req \<noteq> []"
      and pq: "parse_query req = Some (ipv, portv, hostv, wsPath)"
      and gate: "rate_limit_gate penv clk (clientIp req) ipv (isDomain ipv) portv hostv wsPath
          (target_addresses denv req) st (ValidateInput # map DnsQuery (resolver_queries denv req)) = (resp, st', tr')"
    from gate_forms [OF gate] show ?thesis
    proof (elim disjE conjE exE)
      assume "length (target_addresses denv req) > MAX_IP_COUNT"
        "resp = Some \<lparr>status = 400, body = ErrorBody (TooManyAddresses (length (target_addresses denv req)))\<rparr>"
        "st' = st"
        "tr' = (ValidateInput # map DnsQuery (resolver_queries denv req)) @ [CountAddresses (length (target_addresses denv req)), Respond 400]"
      then have "target_addresses denv req \<noteq> [] \<and> length (target_addresses denv req) > MAX_IP_COUNT
      \<and> resp = Some \<lparr>status = 400, body = ErrorBody (TooManyAddresses (length (target_addresses denv req)))\<rparr>
      \<and> st' = st
      \<and> tr' = ValidateInput # map DnsQuery (resolver_queries denv req)
             @ [CountAddresses (length (target_addresses denv req)), Respond 400]"
        using ts by simp
      from this show ?thesis
        by - (rule disjI2, rule disjI1, assumption)
    next
      assume "length (target_addresses denv req) \<le> MAX_IP_COUNT"
        "\<not> fst (checkRateLimit (now_rate clk) (clientIp req) (rateLimitMap st))"
        "resp = Some \<lparr>status = 429, body = ErrorBody TooManyRequests\<rparr>"
        "st' = st\<lparr>rateLimitMap := snd (checkRateLimit (now_rate clk) (clientIp req) (rateLimitMap st))\<rparr>"
        "tr' = (ValidateInput # map DnsQuery (resolver_queries denv req))
           @ [CountAddresses (length (target_addresses denv req)), RateLimitCheck (clientIp req), Respond 429]"
      then have "target_addresses denv req \<noteq> [] \<and> length (target_addresses denv req) \<le> MAX_IP_COUNT
      \<and> \<not> fst (rate_check clk req st)
      \<and> resp = Some \<lparr>status = 429, body = ErrorBody TooManyRequests\<rparr>
      \<and> st' = st\<lparr>rateLimitMap := snd (rate_check clk req st)\<rparr>
      \<and> tr' = ValidateInput # map DnsQuery (resolver_queries denv req)
             @ [CountAddresses (length (target_addresses denv req)), RateLimitCheck (clientIp req), Respond 429]"
        using ts by (simp add: rate_check_def)
      from this show ?thesis
        by - (rule disjI2, rule disjI2, rule disjI1, assumption)
    next
      assume "length (target_addresses denv req) \<le> MAX_IP_COUNT"
        "fst (checkRateLimit (now_rate clk) (clientIp req) (rateLimitMap st))"
        "\<forall>tp. parse_port portv = Some tp \<longrightarrow> tp < 1 \<or> tp > 65535"
        "resp = Some \<lparr>status = 400, body = ErrorBody InvalidPort\<rparr>"
        "st' = st\<lparr>rateLimitMap := snd (checkRateLimit (now_rate clk) (clientIp req) (rateLimitMap st))\<rparr>"
        "tr' = (ValidateInput # map DnsQuery (resolver_queries denv req))
           @ [CountAddresses (length (target_addresses denv req)), RateLimitCheck (clientIp req), PortCheck, Respond 400]"
      moreover have "\<not> port_accepted req"
        using pq \<open>\<forall>tp. parse_port portv = Some tp \<longrightarrow> tp < 1 \<or> tp > 65535\<close>
        by (auto simp: port_accepted_def split: option.splits)
      ultimately have "target_addresses denv req \<noteq> [] \<and> length (target_addresses denv req) \<le> MAX_IP_COUNT
      \<and> fst (rate_check clk req st) \<and> \<not> port_accepted req
      \<and> resp = Some \<lparr>status = 400, body = ErrorBody InvalidPort\<rparr>
      \<and> st' = st\<lparr>rateLimitMap := snd (rate_check clk req st)\<rparr>
      \<and> tr' = ValidateInput # map DnsQuery (resolver_queries denv req)
             @ [CountAddresses (length (target_addresses denv req)), RateLimitCheck (clientIp req), PortCheck, Respond 400]"
        using ts by (simp add: rate_check_def)
      from this show ?thesis
        by - (rule disjI2, rule disjI2, rule disjI2, rule disjI1, assumption)
    next
      fix tp
      assume small: "length (target_addresses denv req) \<le> MAX_IP_COUNT"
        and allowed: "fst (checkRateLimit (now_rate clk) (clientIp req) (rateLimitMap st))"
        and port: "parse_port portv = Some tp" "1 \<le> tp" "tp \<le> 65535"
        and lookup: "lookup_and_detect penv clk ipv (isDomain ipv) tp hostv wsPath (target_addresses denv req)
            (st\<lparr>rateLimitMap := snd (checkRateLimit (now_rate clk) (clientIp req) (rateLimitMap st))\<rparr>)
            ((ValidateInput # map DnsQuery (resolver_queries denv req))
               @ [CountAddresses (length (target_addresses denv req)), RateLimitCheck (clientIp req), PortCheck])
          = (resp, st', tr')"
      let ?k = "cacheKey (isDomain ipv) ipv tp hostv"
      have key: "request_key req = Some ?k"
        using pq port(1) by (rule request_key_parsed)
      have pa: "port_accepted req"
        using pq port by (simp add: port_accepted_def)
      have front: "target_addresses denv req \<noteq> [] \<and> length (target_addresses denv req) \<le> MAX_IP_COUNT
          \<and> fst (rate_check clk req st) \<and> port_accepted req"
        using ts small allowed pa by (simp add: rate_check_def)
      from lookup_forms [OF lookup] show ?thesis
      proof (elim disjE conjE exE)
        fix e
        assume "requestCache (st\<lparr>rateLimitMap := snd (checkRateLimit (now_rate clk) (clientIp req) (rateLimitMap st))\<rparr>) ?k = Some e"
          "now_lookup clk - cached_at e < CACHE_DURATION"
          "resp = Some \<lparr>status = 200, body = PayloadBody (data e)\<rparr>"
          "st' = st\<lparr>rateLimitMap := snd (checkRateLimit (now_rate clk) (clientIp req) (rateLimitMap st))\<rparr>"
          "tr' = ((ValidateInput # map DnsQuery (resolver_queries denv req))
               @ [CountAddresses (length (target_addresses denv req)), RateLimitCheck (clientIp req), PortCheck])
             @ [CacheLookup ?k, Respond 200]"
        then have "request_key req = Some ?k \<and> requestCache st ?k = Some e
            \<and> now_lookup clk - cached_at e < CACHE_DURATION
            \<and> resp = Some \<lparr>status = 200, body = PayloadBody (data e)\<rparr>
            \<and> st' = st\<lparr>rateLimitMap := snd (rate_check clk req st)\<rparr>
            \<and> tr' = ValidateInput # map DnsQuery (resolver_queries denv req)
                   @ [CountAddresses (length (target_addresses denv req)), RateLimitCheck (clientIp req), PortCheck,
                      CacheLookup ?k, Respond 200]"
          using key by (simp add: rate_check_def)
        then have "target_addresses denv req \<noteq> [] \<and> length (target_addresses denv req) \<le> MAX_IP_COUNT
      \<and> fst (rate_check clk req st) \<and> port_accepted req
      \<and> (\<exists>k e. request_key req = Some k \<and> requestCache st k = Some e
            \<and> now_lookup clk - cached_at e < CACHE_DURATION
            \<and> resp = Some \<lparr>status = 200, body = PayloadBody (data e)\<rparr>
            \<and> st' = st\<lparr>rateLimitMap := snd (rate_check clk req st)\<rparr>
            \<and> tr' = ValidateInput # map DnsQuery (resolver_queries denv req)
                   @ [CountAddresses (length (target_addresses denv req)), RateLimitCheck (clientIp req), PortCheck,
                      CacheLookup k, Respond 200])"
          using front by blast
        from this show ?thesis
          by - (rule disjI2, rule disjI2, rule disjI2, rule disjI2, rule disjI1, assumption)
      next
        fix detected
        assume "\<forall>e. requestCache (st\<lparr>rateLimitMap := snd (checkRateLimit (now_rate clk) (clientIp req) (rateLimitMap st))\<rparr>) ?k = Some e
              \<longrightarrow> \<not> now_lookup clk - cached_at e < CACHE_DURATION"
          "detect_batches (detectSingleIP penv tp hostv wsPath) (target_addresses denv req) 0 [] [] = (Some detected, target_addresses denv req)"
          "resp = Some \<lparr>status = 200, body = PayloadBody
              (response_payload clk ipv (isDomain ipv) tp hostv (target_addresses denv req) detected)\<rparr>"
          "st' = st\<lparr>rateLimitMap := snd (checkRateLimit (now_rate clk) (clientIp req) (rateLimitMap st))\<rparr>
             \<lparr>requestCache := (requestCache
                  (st\<lparr>rateLimitMap := snd (checkRateLimit (now_rate clk) (clientIp req) (rateLimitMap st))\<rparr>))
                (?k \<mapsto> \<lparr>data = response_payload clk ipv (isDomain ipv) tp hostv (target_addresses denv req) detected,
                            cached_at = now_store clk\<rparr>)\<rparr>"
          "tr' = ((ValidateInput # map DnsQuery (resolver_queries denv req))
               @ [CountAddresses (length (target_addresses denv req)), RateLimitCheck (clientIp req), PortCheck])
             @ [CacheLookup ?k] @ map Detect (target_addresses denv req) @ [CacheWrite ?k, Respond 200]"
        then have "parse_query req = Some (ipv, portv, hostv, wsPath) \<and> parse_port portv = Some tp
            \<and> request_key req = Some ?k
            \<and> (\<forall>e. requestCache st ?k = Some e \<longrightarrow> \<not> now_lookup clk - cached_at e < CACHE_DURATION)
            \<and> detect_batches (detectSingleIP penv tp hostv wsPath) (target_addresses denv req) 0 [] []
                = (Some detected, target_addresses denv req)
            \<and> resp = Some \<lparr>status = 200, body = PayloadBody
                  (response_payload clk ipv (isDomain ipv) tp hostv (target_addresses denv req) detected)\<rparr>
            \<and> st' = st\<lparr>rateLimitMap := snd (rate_check clk req st),
                    requestCache := (requestCache st)(?k \<mapsto>
                      \<lparr>data = response_payload clk ipv (isDomain ipv) tp hostv (target_addresses denv req) detected,
                       cached_at = now_store clk\<rparr>)\<rparr>
            \<and> tr' = ValidateInput # map DnsQuery (resolver_queries denv req)
                   @ [CountAddresses (length (target_addresses denv req)), RateLimitCheck (clientIp req), PortCheck,
                      CacheLookup ?k] @ map Detect (target_addresses denv req) @ [CacheWrite ?k, Respond 200]"
          using key pq port(1) by (simp add: rate_check_def)
        then have "target_addresses denv req \<noteq> [] \<and> length (target_addresses denv req) \<le> MAX_IP_COUNT
      \<and> fst (rate_check clk req st) \<and> port_accepted req
      \<and> (\<exists>k ipv portv hostv wsPath tp detected.
            parse_query req = Some (ipv, portv, hostv, wsPath) \<and> parse_port portv = Some tp
            \<and> request_key req = Some k
            \<and> (\<forall>e. requestCache st k = Some e \<longrightarrow> \<not> now_lookup clk - cached_at e < CACHE_DURATION)
            \<and> detect_batches (detectSingleIP penv tp hostv wsPath) (target_addresses denv req) 0 [] []
                = (Some detected, target_addresses denv req)
            \<and> resp = Some \<lparr>status = 200, body = PayloadBody
                  (response_payload clk ipv (isDomain ipv) tp hostv (target_addresses denv req) detected)\<rparr>
            \<and> st' = st\<lparr>rateLimitMap := snd (rate_check clk req st),
                    requestCache := (requestCache st)(k \<mapsto>
                      \<lparr>data = response_payload clk ipv (isDomain ipv) tp hostv (target_addresses denv req) detected,
                       cached_at = now_store clk\<rparr>)\<rparr>
            \<and> tr' = ValidateInput # map DnsQuery (resolver_queries denv req)
                   @ [CountAddresses (length (target_addresses denv req)), RateLimitCheck (clientIp req), PortCheck,
                      CacheLookup k] @ map Detect (target_addresses denv req) @ [CacheWrite k, Respond 200])"
          using front by blast
        from this show ?thesis
          by - (rule disjI2, rule disjI2, rule disjI2, rule disjI2, rule disjI2, rule disjI1, assumption)
      next
        fix m
        assume "\<forall>e. requestCache (st\<lparr>rateLimitMap := snd (checkRateLimit (now_rate clk) (clientIp req) (rateLimitMap st))\<rparr>) ?k = Some e
              \<longrightarrow> \<not> now_lookup clk - cached_at e < CACHE_DURATION"
          "0 < m" "resp = None"
          "st' = st\<lparr>rateLimitMap := snd (checkRateLimit (now_rate clk) (clientIp req) (rateLimitMap st))\<rparr>"
          "tr' = ((ValidateInput # map DnsQuery (resolver_queries denv req))
               @ [CountAddresses (length (target_addresses denv req)), RateLimitCheck (clientIp req), PortCheck])
             @ [CacheLookup ?k] @ map Detect (take m (target_addresses denv req))"
        then have "request_key req = Some ?k
            \<and> (\<forall>e. requestCache st ?k = Some e \<longrightarrow> \<not> now_lookup clk - cached_at e < CACHE_DURATION)
            \<and> 0 < m \<and> resp = None
            \<and> st' = st\<lparr>rateLimitMap := snd (rate_check clk req st)\<rparr>
            \<and> tr' = ValidateInput # map DnsQuery (resolver_queries denv req)
                   @ [CountAddresses (length (target_addresses denv req)), RateLimitCheck (clientIp req), PortCheck,
                      CacheLookup ?k] @ map Detect (take m (target_addresses denv req))"
          using key by (simp add: rate_check_def)
        then have "target_addresses denv req \<noteq> [] \<and> length (target_addresses denv req) \<le> MAX_IP_COUNT
      \<and> fst (rate_check clk req st) \<and> port_accepted req
      \<and> (\<exists>k m. request_key req = Some k
            \<and> (\<forall>e. requestCache st k = Some e \<longrightarrow> \<not> now_lookup clk - cached_at e < CACHE_DURATION)
            \<and> 0 < m \<and> resp = None
            \<and> st' = st\<lparr>rateLimitMap := snd (rate_check clk req st)\<rparr>
            \<and> tr' = ValidateInput # map DnsQuery (resolver_queries denv req)
                   @ [CountAddresses (length (target_addresses denv req)), RateLimitCheck (clientIp req), PortCheck,
                      CacheLookup k] @ map Detect (take m (target_addresses denv req)))"
          using front by blast
        from this show ?thesis
          by - (rule disjI2, rule disjI2, rule disjI2, rule disjI2, rule disjI2, rule disjI2, assumption)
      qed
    qed
  qed
qed

lemma times_in_append [simp]: "times_in s (xs @ ys) = times_in s xs + times_in s ys"
  by (simp add: times_in_def)

lemma times_in_Nil [simp]: "times_in s [] = 0"
  by (simp add: times_in_def)

lemma times_in_Cons [simp]: "times_in s (e # es) = (if stage_of e = s then 1 else 0) + times_in s es"
  by (simp add: times_in_def)

lemma times_in_dns [simp]: "times_in s (map DnsQuery qs) = (if s = Resolution then length qs else 0)"
  by (induction qs) auto

lemma times_in_detect [simp]: "times_in s (map Detect ips) = (if s = Detection then length ips else 0)"
  by (induction ips) auto

lemma filter_dns [simp]:
  "filter (\<lambda>e. stage_of e = s) (map DnsQuery qs) = (if s = Resolution then map DnsQuery qs else [])"
  by (induction qs) auto

lemma filter_detect [simp]:
  "filter (\<lambda>e. stage_of e = s) (map Detect ips) = (if s = Detection then map Detect ips else [])"
  by (induction ips) auto

lemma index_dns [simp]: "map (stage_index \<circ> stage_of \<circ> DnsQuery) qs = replicate (length qs) 1"
  by (induction qs) auto

lemma index_detect [simp]: "map (stage_index \<circ> stage_of \<circ> Detect) ips = replicate (length ips) 6"
  by (induction ips) auto

text \<open>The detections that a run has started are those of the first addresses of the target
  list.\<close>

lemma detections_are_of_targets:
  assumes run: "api denv penv clk req st = (resp, st', tr)"
  shows "\<exists>m. filter (\<lambda>e. stage_of e = Detection) tr = map Detect (take m (target_addresses denv req))"
proof -
  have none: "\<exists>m. [] = map Detect (take m (target_addresses denv req))"
    by (rule exI [of _ 0]) simp
  have every: "\<exists>m. map Detect (target_addresses denv req) = map Detect (take m (target_addresses denv req))"
    by (rule exI [of _ "length (target_addresses denv req)"]) simp
  from request_course [OF run] show ?thesis
  proof (elim disjE exE conjE)
    assume "tr = ValidateInput # map DnsQuery (resolver_queries denv req) @ [Respond 400]"
    then show ?thesis
      using none by simp
  next
    assume "tr = ValidateInput # map DnsQuery (resolver_queries denv req)
             @ [CountAddresses (length (target_addresses denv req)), Respond 400]"
    then show ?thesis
      using none by simp
  next
    assume "tr = ValidateInput # map DnsQuery (resolver_queries denv req)
             @ [CountAddresses (length (target_addresses denv req)), RateLimitCheck (clientIp req), Respond 429]"
    then show ?thesis
      using none by simp
  next
    assume "tr = ValidateInput # map DnsQuery (resolver_queries denv req)
             @ [CountAddresses (length (target_addresses denv req)), RateLimitCheck (clientIp req), PortCheck, Respond 400]"
    then show ?thesis
      using none by simp
  next
    fix k
    assume "tr = ValidateInput # map DnsQuery (resolver_queries denv req)
                   @ [CountAddresses (length (target_addresses denv req)), RateLimitCheck (clientIp req), PortCheck,
                      CacheLookup k, Respond 200]"
    then show ?thesis
      using none by simp
  next
    fix k
    assume "tr = ValidateInput # map DnsQuery (resolver_queries denv req)
                   @ [CountAddresses (length (target_addresses denv req)), RateLimitCheck (clientIp req), PortCheck,
                      CacheLookup k] @ map Detect (target_addresses denv req) @ [CacheWrite k, Respond 200]"
    then have "filter (\<lambda>e. stage_of e = Detection) tr = map Detect (target_addresses denv req)"
      by simp
    then show ?thesis
      using every by simp
  next
    fix k m
    assume "tr = ValidateInput # map DnsQuery (resolver_queries denv req)
                   @ [CountAddresses (length (target_addresses denv req)), RateLimitCheck (clientIp req), PortCheck,
                      CacheLookup k] @ map Detect (take m (target_addresses denv req))"
    then have "filter (\<lambda>e. stage_of e = Detection) tr = map Detect (take m (target_addresses denv req))"
      by simp
    then show ?thesis
      by blast
  qed
qed

lemma stages_of_a_request:
  assumes run: "api denv penv clk req st = (resp, st', tr)"
  shows "sorted (map (stage_index \<circ> stage_of) tr)
     \<and> tr \<noteq> [] \<and> hd tr = ValidateInput \<and> times_in InputValidation tr = 1
     \<and> filter (\<lambda>e. stage_of e = Resolution) tr = map DnsQuery (resolver_queries denv req)
     \<and> times_in AddressLimit tr \<le> 1 \<and> times_in RateLimit tr \<le> 1 \<and> times_in PortValidation tr \<le> 1
     \<and> times_in CacheRead tr \<le> 1 \<and> times_in CacheStore tr \<le> 1
     \<and> (0 < times_in AddressLimit tr \<longleftrightarrow> target_addresses denv req \<noteq> [])
     \<and> (0 < times_in AddressLimit tr \<longrightarrow>
          filter (\<lambda>e. stage_of e = AddressLimit) tr
            = [CountAddresses (length (target_addresses denv req))])
     \<and> (0 < times_in RateLimit tr \<longleftrightarrow>
          0 < times_in AddressLimit tr \<and> length (target_addresses denv req) \<le> MAX_IP_COUNT)
     \<and> (0 < times_in RateLimit tr \<longrightarrow>
          filter (\<lambda>e. stage_of e = RateLimit) tr = [RateLimitCheck (clientIp req)])
     \<and> (0 < times_in PortValidation tr \<longleftrightarrow>
          0 < times_in RateLimit tr \<and> fst (rate_check clk req st))
     \<and> (0 < times_in CacheRead tr \<longleftrightarrow> 0 < times_in PortValidation tr \<and> port_accepted req)
     \<and> (0 < times_in CacheRead tr \<longrightarrow>
          (\<exists>k. request_key req = Some k
             \<and> filter (\<lambda>e. stage_of e = CacheRead) tr = [CacheLookup k]
             \<and> (0 < times_in CacheStore tr \<longrightarrow>
                  filter (\<lambda>e. stage_of e = CacheStore) tr = [CacheWrite k])
             \<and> (0 < times_in Detection tr \<longleftrightarrow>
                  (\<forall>e. requestCache st k = Some e \<longrightarrow>
                        \<not> now_lookup clk - cached_at e < CACHE_DURATION))))
     \<and> (0 < times_in Detection tr \<longrightarrow> 0 < times_in CacheRead tr)
     \<and> (0 < times_in CacheStore tr \<longrightarrow>
          0 < times_in Detection tr
          \<and> filter (\<lambda>e. stage_of e = Detection) tr = map Detect (target_addresses denv req))
     \<and> (case resp of
          Some r \<Rightarrow> times_in Answer tr = 1 \<and> last tr = Respond (status r)
                    \<and> (0 < times_in Detection tr \<longrightarrow> times_in CacheStore tr = 1)
        | None \<Rightarrow> times_in Answer tr = 0 \<and> 0 < times_in Detection tr \<and> times_in CacheStore tr = 0)
     \<and> rateLimitMap st'
         = (if 0 < times_in RateLimit tr then snd (rate_check clk req st) else rateLimitMap st)
     \<and> (times_in CacheStore tr = 0 \<longrightarrow> requestCache st' = requestCache st)
     \<and> (map_option status resp = Some 429 \<longrightarrow>
          times_in RateLimit tr = 1 \<and> times_in PortValidation tr = 0 \<and> times_in CacheRead tr = 0
          \<and> times_in Detection tr = 0 \<and> times_in CacheStore tr = 0)
     \<and> (\<forall>k e. request_key req = Some k \<and> requestCache st k = Some e
            \<and> now_lookup clk - cached_at e < CACHE_DURATION \<longrightarrow>
          times_in Detection tr = 0 \<and> times_in CacheStore tr = 0)"
  using request_course [OF run]
proof (elim disjE exE conjE)
  fix err
  assume "target_addresses denv req = []" "resp = Some \<lparr>status = 400, body = ErrorBody err\<rparr>" "st' = st"
    "tr = ValidateInput # map DnsQuery (resolver_queries denv req) @ [Respond 400]"
  then show ?thesis
    by (simp add: sorted_append)
next
  assume "target_addresses denv req \<noteq> []" "length (target_addresses denv req) > MAX_IP_COUNT"
    "resp = Some \<lparr>status = 400, body = ErrorBody (TooManyAddresses (length (target_addresses denv req)))\<rparr>"
    "st' = st"
    "tr = ValidateInput # map DnsQuery (resolver_queries denv req)
             @ [CountAddresses (length (target_addresses denv req)), Respond 400]"
  then show ?thesis
    by (simp add: sorted_append)
next
  assume "target_addresses denv req \<noteq> []" "length (target_addresses denv req) \<le> MAX_IP_COUNT"
    "\<not> fst (rate_check clk req st)"
    "resp = Some \<lparr>status = 429, body = ErrorBody TooManyRequests\<rparr>"
    "st' = st\<lparr>rateLimitMap := snd (rate_check clk req st)\<rparr>"
    "tr = ValidateInput # map DnsQuery (resolver_queries denv req)
             @ [CountAddresses (length (target_addresses denv req)), RateLimitCheck (clientIp req), Respond 429]"
  then show ?thesis
    by (simp add: sorted_append)
next
  assume "target_addresses denv req \<noteq> []" "length (target_addresses denv req) \<le> MAX_IP_COUNT"
    "fst (rate_check clk req st)" "\<not> port_accepted req"
    "resp = Some \<lparr>status = 400, body = ErrorBody InvalidPort\<rparr>"
    "st' = st\<lparr>rateLimitMap := snd (rate_check clk req st)\<rparr>"
    "tr = ValidateInput # map DnsQuery (resolver_queries denv req)
             @ [CountAddresses (length (target_addresses denv req)), RateLimitCheck (clientIp req), PortCheck, Respond 400]"
  then show ?thesis
    by (simp add: sorted_append)
next
  fix k e
  assume "target_addresses denv req \<noteq> []" "length (target_addresses denv req) \<le> MAX_IP_COUNT"
    "fst (rate_check clk req st)" "port_accepted req"
    "request_key req = Some k" "requestCache st k = Some e"
    "now_lookup clk - cached_at e < CACHE_DURATION"
    "resp = Some \<lparr>status = 200, body = PayloadBody (data e)\<rparr>"
    "st' = st\<lparr>rateLimitMap := snd (rate_check clk req st)\<rparr>"
    "tr = ValidateInput # map DnsQuery (resolver_queries denv req)
                   @ [CountAddresses (length (target_addresses denv req)), RateLimitCheck (clientIp req), PortCheck,
                      CacheLookup k, Respond 200]"
  then show ?thesis
    by (simp add: sorted_append)
next
  fix k ipv portv hostv wsPath tp detected
  assume "target_addresses denv req \<noteq> []" "length (target_addresses denv req) \<le> MAX_IP_COUNT"
    "fst (rate_check clk req st)" "port_accepted req"
    "request_key req = Some k"
    "\<forall>e. requestCache st k = Some e \<longrightarrow> \<not> now_lookup clk - cached_at e < CACHE_DURATION"
    "resp = Some \<lparr>status = 200, body = PayloadBody
                  (response_payload clk ipv (isDomain ipv) tp hostv (target_addresses denv req) detected)\<rparr>"
    "st' = st\<lparr>rateLimitMap := snd (rate_check clk req st),
                    requestCache := (requestCache st)(k \<mapsto>
                      \<lparr>data = response_payload clk ipv (isDomain ipv) tp hostv (target_addresses denv req) detected,
                       cached_at = now_store clk\<rparr>)\<rparr>"
    "tr = ValidateInput # map DnsQuery (resolver_queries denv req)
                   @ [CountAddresses (length (target_addresses denv req)), RateLimitCheck (clientIp req), PortCheck,
                      CacheLookup k] @ map Detect (target_addresses denv req) @ [CacheWrite k, Respond 200]"
  then show ?thesis
    by (simp add: sorted_append)
next
  fix k m
  assume "target_addresses denv req \<noteq> []" "length (target_addresses denv req) \<le> MAX_IP_COUNT"
    "fst (rate_check clk req st)" "port_accepted req"
    "request_key req = Some k"
    "\<forall>e. requestCache st k = Some e \<longrightarrow> \<not> now_lookup clk - cached_at e < CACHE_DURATION"
    "0 < m" "resp = None"
    "st' = st\<lparr>rateLimitMap := snd (rate_check clk req st)\<rparr>"
    "tr = ValidateInput # map DnsQuery (resolver_queries denv req)
                   @ [CountAddresses (length (target_addresses denv req)), RateLimitCheck (clientIp req), PortCheck,
                      CacheLookup k] @ map Detect (take m (target_addresses denv req))"
  then show ?thesis
    by (simp add: sorted_append) blast
qed

text \<open>
  Claim C7, as amended.  The stages of every request come in the order: input validation,
  resolver, address-count limit, rate-limit check, port check, cache lookup, detection,
  cache write, response.  The input validation comes first and happens once; the
  queries of the resolver are those of resolving the address part when that satisfies
  \<^verbatim>\<open>isDomain\<close>, and there are none otherwise.  Every later stage happens at most once,
  and exactly when the stage before it has let the request pass: the address count is
  checked when there are target addresses, the rate limit when they are at most
  \<^verbatim>\<open>MAX_IP_COUNT\<close>, the port when \<^verbatim>\<open>checkRateLimit\<close> has allowed the request, the cache
  is looked up under the key of the request when the port is accepted, and detections run
  when the cache has no fresh entry under that key.  The detections are those of the
  target addresses, in their order: all of them when the cache is written, and the first
  of them when one of them never returns, in which case there is neither cache write nor
  response.  Otherwise the response is the last event.  The map of the rate limiter
  changes only by the rate-limit check and the cache only by the cache write.  A
  rate-limited request (status 429) has no port check, cache lookup, detection or cache
  write, and a request whose key has a fresh entry in the cache has no detection and no
  cache write; the resolver, however, has already run for both.
\<close>

theorem request_stages_in_order:
  "api denv penv clk req st = (resp, st', tr) \<longrightarrow>
     sorted (map (stage_index \<circ> stage_of) tr)
     \<and> tr \<noteq> [] \<and> hd tr = ValidateInput \<and> times_in InputValidation tr = 1
     \<and> filter (\<lambda>e. stage_of e = Resolution) tr = map DnsQuery (resolver_queries denv req)
     \<and> times_in AddressLimit tr \<le> 1 \<and> times_in RateLimit tr \<le> 1 \<and> times_in PortValidation tr \<le> 1
     \<and> times_in CacheRead tr \<le> 1 \<and> times_in CacheStore tr \<le> 1
     \<and> (0 < times_in AddressLimit tr \<longleftrightarrow> target_addresses denv req \<noteq> [])
     \<and> (0 < times_in AddressLimit tr \<longrightarrow>
          filter (\<lambda>e. stage_of e = AddressLimit) tr
            = [CountAddresses (length (target_addresses denv req))])
     \<and> (0 < times_in RateLimit tr \<longleftrightarrow>
          0 < times_in AddressLimit tr \<and> length (target_addresses denv req) \<le> MAX_IP_COUNT)
     \<and> (0 < times_in RateLimit tr \<longrightarrow>
          filter (\<lambda>e. stage_of e = RateLimit) tr = [RateLimitCheck (clientIp req)])
     \<and> (0 < times_in PortValidation tr \<longleftrightarrow>
          0 < times_in RateLimit tr \<and> fst (rate_check clk req st))
     \<and> (0 < times_in CacheRead tr \<longleftrightarrow> 0 < times_in PortValidation tr \<and> port_accepted req)
     \<and> (0 < times_in CacheRead tr \<longrightarrow>
          (\<exists>k. request_key req = Some k
             \<and> filter (\<lambda>e. stage_of e = CacheRead) tr = [CacheLookup k]
             \<and> (0 < times_in CacheStore tr \<longrightarrow>
                  filter (\<lambda>e. stage_of e = CacheStore) tr = [CacheWrite k])
             \<and> (0 < times_in Detection tr \<longleftrightarrow>
                  (\<forall>e. requestCache st k = Some e \<longrightarrow>
                        \<not> now_lookup clk - cached_at e < CACHE_DURATION))))
     \<and> (0 < times_in Detection tr \<longrightarrow> 0 < times_in CacheRead tr)
     \<and> (0 < times_in CacheStore tr \<longrightarrow>
          0 < times_in Detection tr
          \<and> filter (\<lambda>e. stage_of e = Detection) tr = map Detect (target_addresses denv req))
     \<and> (case resp of
          Some r \<Rightarrow> times_in Answer tr = 1 \<and> last tr = Respond (status r)
                    \<and> (0 < times_in Detection tr \<longrightarrow> times_in CacheStore tr = 1)
        | None \<Rightarrow> times_in Answer tr = 0 \<and> 0 < times_in Detection tr \<and> times_in CacheStore tr = 0)
     \<and> rateLimitMap st'
         = (if 0 < times_in RateLimit tr then snd (rate_check clk req st) else rateLimitMap st)
     \<and> (times_in CacheStore tr = 0 \<longrightarrow> requestCache st' = requestCache st)
     \<and> (map_option status resp = Some 429 \<longrightarrow>
          times_in RateLimit tr = 1 \<and> times_in PortValidation tr = 0 \<and> times_in CacheRead tr = 0
          \<and> times_in Detection tr = 0 \<and> times_in CacheStore tr = 0)
     \<and> (\<forall>k e. request_key req = Some k \<and> requestCache st k = Some e
            \<and> now_lookup clk - cached_at e < CACHE_DURATION \<longrightarrow>
          times_in Detection tr = 0 \<and> times_in CacheStore tr = 0)
     \<and> (\<exists>m. filter (\<lambda>e. stage_of e = Detection) tr = map Detect (take m (target_addresses denv req)))"
proof
  assume run: "api denv penv clk req st = (resp, st', tr)"
  from conjI [OF stages_of_a_request [OF run] detections_are_of_targets [OF run]]
  show "sorted (map (stage_index \<circ> stage_of) tr)
     \<and> tr \<noteq> [] \<and> hd tr = ValidateInput \<and> times_in InputValidation tr = 1
     \<and> filter (\<lambda>e. stage_of e = Resolution) tr = map DnsQuery (resolver_queries denv req)
     \<and> times_in AddressLimit tr \<le> 1 \<and> times_in RateLimit tr \<le> 1 \<and> times_in PortValidation tr \<le> 1
     \<and> times_in CacheRead tr \<le> 1 \<and> times_in CacheStore tr \<le> 1
     \<and> (0 < times_in AddressLimit tr \<longleftrightarrow> target_addresses denv req \<noteq> [])
     \<and> (0 < times_in AddressLimit tr \<longrightarrow>
          filter (\<lambda>e. stage_of e = AddressLimit) tr
            = [CountAddresses (length (target_addresses denv req))])
     \<and> (0 < times_in RateLimit tr \<longleftrightarrow>
          0 < times_in AddressLimit tr \<and> length (target_addresses denv req) \<le> MAX_IP_COUNT)
     \<and> (0 < times_in RateLimit tr \<longrightarrow>
          filter (\<lambda>e. stage_of e = RateLimit) tr = [RateLimitCheck (clientIp req)])
     \<and> (0 < times_in PortValidation tr \<longleftrightarrow>
          0 < times_in RateLimit tr \<and> fst (rate_check clk req st))
     \<and> (0 < times_in CacheRead tr \<longleftrightarrow> 0 < times_in PortValidation tr \<and> port_accepted req)
     \<and> (0 < times_in CacheRead tr \<longrightarrow>
          (\<exists>k. request_key req = Some k
             \<and> filter (\<lambda>e. stage_of e = CacheRead) tr = [CacheLookup k]
             \<and> (0 < times_in CacheStore tr \<longrightarrow>
                  filter (\<lambda>e. stage_of e = CacheStore) tr = [CacheWrite k])
             \<and> (0 < times_in Detection tr \<longleftrightarrow>
                  (\<forall>e. requestCache st k = Some e \<longrightarrow>
                        \<not> now_lookup clk - cached_at e < CACHE_DURATION))))
     \<and> (0 < times_in Detection tr \<longrightarrow> 0 < times_in CacheRead tr)
     \<and> (0 < times_in CacheStore tr \<longrightarrow>
          0 < times_in Detection tr
          \<and> filter (\<lambda>e. stage_of e = Detection) tr = map Detect (target_addresses denv req))
     \<and> (case resp of
          Some r \<Rightarrow> times_in Answer tr = 1 \<and> last tr = Respond (status r)
                    \<and> (0 < times_in Detection tr \<longrightarrow> times_in CacheStore tr = 1)
        | None \<Rightarrow> times_in Answer tr = 0 \<and> 0 < times_in Detection tr \<and> times_in CacheStore tr = 0)
     \<and> rateLimitMap st'
         = (if 0 < times_in RateLimit tr then snd (rate_check clk req st) else rateLimitMap st)
     \<and> (times_in CacheStore tr = 0 \<longrightarrow> requestCache st' = requestCache st)
     \<and> (map_option status resp = Some 429 \<longrightarrow>
          times_in RateLimit tr = 1 \<and> times_in PortValidation tr = 0 \<and> times_in CacheRead tr = 0
          \<and> times_in Detection tr = 0 \<and> times_in CacheStore tr = 0)
     \<and> (\<forall>k e. request_key req = Some k \<and> requestCache st k = Some e
            \<and> now_lookup clk - cached_at e < CACHE_DURATION \<longrightarrow>
          times_in Detection tr = 0 \<and> times_in CacheStore tr = 0)
     \<and> (\<exists>m. filter (\<lambda>e. stage_of e = Detection) tr = map Detect (take m (target_addresses denv req)))"
    unfolding conj_assoc .
qed

theorem request_stages_in_order_witness:
  "map_option status (fst limited_run) = Some 429
   \<and> sorted (map (stage_index \<circ> stage_of) (snd (snd limited_run)))
   \<and> hd (snd (snd limited_run)) = ValidateInput
   \<and> times_in RateLimit (snd (snd limited_run)) = 1
   \<and> times_in PortValidation (snd (snd limited_run)) = 0
   \<and> times_in Detection (snd (snd limited_run)) = 0
   \<and> filter (\<lambda>e. stage_of e = Resolution) (snd (snd limited_run))
       = map DnsQuery (resolver_queries simple_dns domain_request)"
proof -
  have limited: "map_option status (fst limited_run) = Some 429"
    by code_simp
  show ?thesis
    using limited
      request_stages_in_order [of simple_dns path_probes noon domain_request exhausted_state
        "fst limited_run" "fst (snd limited_run)" "snd (snd limited_run)"]
    by (simp add: limited_run_def)
qed

text \<open>The claim as written fails for a domain: the resolver has run, with four queries,
  before the rate-limit check refuses the request, and before the cache lookup that
  serves the stored response.\<close>

theorem resolver_runs_first_counterexample:
  "map_option status (fst limited_run) = Some 429
   \<and> snd (snd limited_run)
       = [ValidateInput,
          DnsQuery (QueryResolve4 ''a.example''), DnsQuery (QueryResolveCname ''a.example''),
          DnsQuery (QueryResolveA ''a.example''), DnsQuery (QueryLookupAll ''a.example''),
          CountAddresses 1, RateLimitCheck ''203.0.113.9'', Respond 429]
   \<and> snd (snd second_run)
       = [ValidateInput,
          DnsQuery (QueryResolve4 ''a.example''), DnsQuery (QueryResolveCname ''a.example''),
          DnsQuery (QueryResolveA ''a.example''), DnsQuery (QueryLookupAll ''a.example''),
          CountAddresses 1, RateLimitCheck ''203.0.113.9'', PortCheck,
          CacheLookup ''domain_a.example_443_example.com'', Respond 200]"
  by code_simp

text \<open>A request that is answered with status 200 has reached the cache lookup.\<close>

lemma answered_after_lookup:
  assumes run: "api denv penv clk req st = (resp, st', tr)"
    and ok: "map_option status resp = Some 200"
  shows "0 < times_in CacheRead tr"
  using request_course [OF run] ok by (elim disjE exE conjE) simp_all

text \<open>What a request that has written to the cache has stored, and sent.\<close>

lemma stored_response:
  assumes run: "api denv penv clk req st = (resp, st', tr)"
    and wrote: "times_in CacheStore tr = 1"
    and pq: "parse_query req = Some (ipv, portv, hostv, wsPath)"
    and port: "parse_port portv = Some tp"
  shows "\<exists>detected.
      detect_batches (detectSingleIP penv tp hostv wsPath) (target_addresses denv req) 0 [] []
        = (Some detected, target_addresses denv req)
      \<and> resp = Some \<lparr>status = 200, body = PayloadBody
            (response_payload clk ipv (isDomain ipv) tp hostv (target_addresses denv req) detected)\<rparr>
      \<and> request_key req = Some (cacheKey (isDomain ipv) ipv tp hostv)
      \<and> filter (\<lambda>e. stage_of e = CacheRead) tr = [CacheLookup (cacheKey (isDomain ipv) ipv tp hostv)]
      \<and> requestCache st' = (requestCache st)(cacheKey (isDomain ipv) ipv tp hostv \<mapsto>
            \<lparr>data = response_payload clk ipv (isDomain ipv) tp hostv (target_addresses denv req) detected,
             cached_at = now_store clk\<rparr>)"
  using request_course [OF run] wrote pq port
  by (elim disjE exE conjE) (simp_all add: request_key_def)

text \<open>Two requests with the same cache key, the first of which ran a detection and stored
  its response, and the second of which reaches the cache lookup and finds the cache as
  the first has left it.\<close>

lemma second_request:
  assumes run1: "api denv1 penv1 clk1 req1 st0 = (resp1, st1, tr1)"
    and wrote: "times_in CacheStore tr1 = 1"
    and cache: "requestCache st2 = requestCache st1"
    and key: "request_key req2 = request_key req1"
    and run2: "api denv2 penv2 clk2 req2 st2 = (resp2, st3, tr2)"
    and reached: "0 < times_in CacheRead tr2"
  shows "(now_lookup clk2 - now_store clk1 < CACHE_DURATION \<longrightarrow>
            resp2 = resp1 \<and> times_in Detection tr2 = 0 \<and> times_in CacheStore tr2 = 0
            \<and> requestCache st3 = requestCache st2
            \<and> filter (\<lambda>e. stage_of e = CacheRead) tr2 = filter (\<lambda>e. stage_of e = CacheRead) tr1)
       \<and> (\<not> now_lookup clk2 - now_store clk1 < CACHE_DURATION \<longrightarrow>
            0 < times_in Detection tr2
            \<and> (resp2 \<noteq> None \<longrightarrow>
                 times_in CacheStore tr2 = 1
                 \<and> (\<exists>p. map_option body resp2 = Some (PayloadBody p) \<and> timestamp p = now_payload clk2)))"
proof -
  from request_course [OF run1] wrote
  obtain k p1 where first: "request_key req1 = Some k" "resp1 = Some \<lparr>status = 200, body = PayloadBody p1\<rparr>"
      "requestCache st1 = (requestCache st0)(k \<mapsto> \<lparr>data = p1, cached_at = now_store clk1\<rparr>)"
      "filter (\<lambda>e. stage_of e = CacheRead) tr1 = [CacheLookup k]"
    by (elim disjE exE conjE) simp_all
  then have held: "requestCache st2 k = Some \<lparr>data = p1, cached_at = now_store clk1\<rparr>"
    using cache by simp
  have key2: "request_key req2 = Some k"
    using key first(1) by simp
  from request_course [OF run2] show ?thesis
  proof (elim disjE exE conjE)
    assume "tr2 = ValidateInput # map DnsQuery (resolver_queries denv2 req2) @ [Respond 400]"
    then show ?thesis using reached by simp
  next
    assume "tr2 = ValidateInput # map DnsQuery (resolver_queries denv2 req2)
             @ [CountAddresses (length (target_addresses denv2 req2)), Respond 400]"
    then show ?thesis using reached by simp
  next
    assume "tr2 = ValidateInput # map DnsQuery (resolver_queries denv2 req2)
             @ [CountAddresses (length (target_addresses denv2 req2)), RateLimitCheck (clientIp req2), Respond 429]"
    then show ?thesis using reached by simp
  next
    assume "tr2 = ValidateInput # map DnsQuery (resolver_queries denv2 req2)
             @ [CountAddresses (length (target_addresses denv2 req2)), RateLimitCheck (clientIp req2), PortCheck, Respond 400]"
    then show ?thesis using reached by simp
  next
    fix k' e
    assume "request_key req2 = Some k'" "requestCache st2 k' = Some e"
      "now_lookup clk2 - cached_at e < CACHE_DURATION"
      "resp2 = Some \<lparr>status = 200, body = PayloadBody (data e)\<rparr>"
      "st3 = st2\<lparr>rateLimitMap := snd (rate_check clk2 req2 st2)\<rparr>"
      "tr2 = ValidateInput # map DnsQuery (resolver_queries denv2 req2)
                   @ [CountAddresses (length (target_addresses denv2 req2)), RateLimitCheck (clientIp req2), PortCheck,
                      CacheLookup k', Respond 200]"
    then show ?thesis
      using held key2 first(2,4) by simp
  next
    fix k' ipv portv hostv wsPath tp detected
    assume "request_key req2 = Some k'"
      "\<forall>e. requestCache st2 k' = Some e \<longrightarrow> \<not> now_lookup clk2 - cached_at e < CACHE_DURATION"
      "resp2 = Some \<lparr>status = 200, body = PayloadBody
                  (response_payload clk2 ipv (isDomain ipv) tp hostv (target_addresses denv2 req2) detected)\<rparr>"
      "target_addresses denv2 req2 \<noteq> []"
      "tr2 = ValidateInput # map DnsQuery (resolver_queries denv2 req2)
                   @ [CountAddresses (length (target_addresses denv2 req2)), RateLimitCheck (clientIp req2), PortCheck,
                      CacheLookup k'] @ map Detect (target_addresses denv2 req2) @ [CacheWrite k', Respond 200]"
    then show ?thesis
      using held key2 by (simp add: response_payload_def Let_def)
  next
    fix k' m
    assume "request_key req2 = Some k'"
      "\<forall>e. requestCache st2 k' = Some e \<longrightarrow> \<not> now_lookup clk2 - cached_at e < CACHE_DURATION"
      "0 < m" "resp2 = None" "target_addresses denv2 req2 \<noteq> []"
      "tr2 = ValidateInput # map DnsQuery (resolver_queries denv2 req2)
                   @ [CountAddresses (length (target_addresses denv2 req2)), RateLimitCheck (clientIp req2), PortCheck,
                      CacheLookup k'] @ map Detect (take m (target_addresses denv2 req2))"
    then show ?thesis
      using held key2 by simp
  qed
qed

lemma request_key_same_parameters:
  "query_ip req2 = query_ip req1 \<Longrightarrow> query_port req2 = query_port req1 \<Longrightarrow>
   query_host req2 = query_host req1 \<Longrightarrow> request_key req2 = request_key req1"
  by (simp add: request_key_def parse_query_def Let_def split_beta
      split: option.splits if_splits prod.splits)

lemma dns_part_of_trace:
  assumes "api denv penv clk req st = (resp, st', tr)"
  shows "filter (\<lambda>e. stage_of e = Resolution) tr = map DnsQuery (resolver_queries denv req)"
  using request_course [OF assms] by (elim disjE exE conjE) simp_all

text \<open>
  Claim C4, as amended.  Take two identical requests, the first of which ran a detection
  and stored its response, and the second of which finds the cache as the first left it
  and is not rejected on its way to the cache lookup (it is answered with status 200).
  If the second reaches the lookup less than 30000 ms after the first stored its
  response, it is answered with the identical response, runs no detection and writes
  nothing to the cache; otherwise the entry counts as a miss, a fresh detection runs and
  its response is stored.  In both cases the resolver runs again for the second request
  before the cache is consulted: its queries are those of resolving the address part when
  that satisfies \<^verbatim>\<open>isDomain\<close>.
\<close>

theorem repeated_request_within_ttl:
  "api denv1 penv1 clk1 req st0 = (resp1, st1, tr1) \<and> times_in CacheStore tr1 = 1
   \<and> requestCache st2 = requestCache st1
   \<and> api denv2 penv2 clk2 req st2 = (resp2, st3, tr2) \<and> map_option status resp2 = Some 200 \<longrightarrow>
     (now_lookup clk2 - now_store clk1 < CACHE_DURATION \<longrightarrow>
        resp2 = resp1 \<and> times_in Detection tr2 = 0 \<and> times_in CacheStore tr2 = 0
        \<and> requestCache st3 = requestCache st2)
     \<and> (\<not> now_lookup clk2 - now_store clk1 < CACHE_DURATION \<longrightarrow>
        0 < times_in Detection tr2 \<and> times_in CacheStore tr2 = 1
        \<and> (\<exists>p. map_option body resp2 = Some (PayloadBody p) \<and> timestamp p = now_payload clk2))
     \<and> filter (\<lambda>e. stage_of e = Resolution) tr2 = map DnsQuery (resolver_queries denv2 req)"
proof
  assume a: "api denv1 penv1 clk1 req st0 = (resp1, st1, tr1) \<and> times_in CacheStore tr1 = 1
   \<and> requestCache st2 = requestCache st1
   \<and> api denv2 penv2 clk2 req st2 = (resp2, st3, tr2) \<and> map_option status resp2 = Some 200"
  then have reached: "0 < times_in CacheRead tr2"
    using answered_after_lookup [of denv2 penv2 clk2 req st2 resp2 st3 tr2] by blast
  have answered: "resp2 \<noteq> None"
    using a by auto
  show "(now_lookup clk2 - now_store clk1 < CACHE_DURATION \<longrightarrow>
        resp2 = resp1 \<and> times_in Detection tr2 = 0 \<and> times_in CacheStore tr2 = 0
        \<and> requestCache st3 = requestCache st2)
     \<and> (\<not> now_lookup clk2 - now_store clk1 < CACHE_DURATION \<longrightarrow>
        0 < times_in Detection tr2 \<and> times_in CacheStore tr2 = 1
        \<and> (\<exists>p. map_option body resp2 = Some (PayloadBody p) \<and> timestamp p = now_payload clk2))
     \<and> filter (\<lambda>e. stage_of e = Resolution) tr2 = map DnsQuery (resolver_queries denv2 req)"
    using a reached answered
      second_request [of denv1 penv1 clk1 req st0 resp1 st1 tr1 st2 req denv2 penv2 clk2 resp2 st3 tr2]
      dns_part_of_trace [of denv2 penv2 clk2 req st2 resp2 st3 tr2]
    by blast
qed

theorem repeated_request_within_ttl_witness:
  "fst second_run = fst first_run
   \<and> times_in Detection (snd (snd second_run)) = 0
   \<and> filter (\<lambda>e. stage_of e = Resolution) (snd (snd second_run))
       = map DnsQuery (resolver_queries simple_dns domain_request)
   \<and> 0 < times_in Detection (snd (snd third_run))
   \<and> times_in CacheStore (snd (snd third_run)) = 1"
proof -
  have wrote: "times_in CacheStore (snd (snd first_run)) = 1"
    by code_simp
  have ok2: "map_option status (fst second_run) = Some 200"
    and ok3: "map_option status (fst third_run) = Some 200"
    by code_simp+
  have young: "now_lookup later - now_store noon < CACHE_DURATION"
    and old: "\<not> now_lookup much_later - now_store noon < CACHE_DURATION"
    by (simp_all add: later_def much_later_def noon_def CACHE_DURATION_def)
  have "fst second_run = fst first_run \<and> times_in Detection (snd (snd second_run)) = 0
      \<and> filter (\<lambda>e. stage_of e = Resolution) (snd (snd second_run))
          = map DnsQuery (resolver_queries simple_dns domain_request)"
    using wrote ok2 young
      repeated_request_within_ttl [of simple_dns path_probes noon domain_request fresh_state
        "fst first_run" "fst (snd first_run)" "snd (snd first_run)" "fst (snd first_run)"
        simple_dns path_probes later "fst second_run" "fst (snd second_run)" "snd (snd second_run)"]
    by (simp add: first_run_def [symmetric] second_run_def [symmetric])
  moreover have "0 < times_in Detection (snd (snd third_run)) \<and> times_in CacheStore (snd (snd third_run)) = 1"
    using wrote ok3 old
      repeated_request_within_ttl [of simple_dns path_probes noon domain_request fresh_state
        "fst first_run" "fst (snd first_run)" "snd (snd first_run)" "fst (snd first_run)"
        simple_dns path_probes much_later "fst third_run" "fst (snd third_run)" "snd (snd third_run)"]
    by (simp add: first_run_def [symmetric] third_run_def [symmetric])
  ultimately show ?thesis
    by blast
qed

text \<open>The claim as written fails for a domain: the second request, served from the cache
  20 seconds after the first, has sent the four DNS queries again.\<close>

theorem cached_domain_resolved_again_counterexample:
  "fst second_run = fst first_run
   \<and> filter (\<lambda>e. stage_of e = Resolution) (snd (snd second_run))
       = [DnsQuery (QueryResolve4 ''a.example''), DnsQuery (QueryResolveCname ''a.example''),
          DnsQuery (QueryResolveA ''a.example''), DnsQuery (QueryLookupAll ''a.example'')]
   \<and> times_in Detection (snd (snd second_run)) = 0"
  by code_simp

lemma request_key_formula:
  "parse_query req = Some (ipv, portv, hostv, wsPath) \<Longrightarrow> parse_port portv = Some tp \<Longrightarrow>
   request_key req
     = Some ((if isDomain ipv then ''domain_'' else ''ip_'') @ ipv @ ''_'' @ show_nat (nat tp)
             @ ''_'' @ hostv)"
  by (simp add: request_key_def cacheKey_def)

text \<open>
  Claim C10, as amended.  The cache key is built from the \<^verbatim>\<open>ip\<close>, \<^verbatim>\<open>port\<close> and
  \<^verbatim>\<open>host\<close> parameters only: it is the text \<^verbatim>\<open>domain_\<close> or \<^verbatim>\<open>ip_\<close>, the address part, the
  port number and the host, joined by underscores, and changing the WebSocket path of a
  request does not change it.  So take a request that has run a detection and stored its
  response, which is the response built from the detections of its target addresses with
  its own WebSocket path.  A second request with the same three parameters and any
  WebSocket path, which finds the cache as the first left it and reaches the cache lookup
  (it is not refused before by the resolution, the address-count limit, the rate limiter
  or the port check) less than 30000 ms after the response was stored, looks up the same
  key, is answered with that response, computed for the path of the first request, and
  runs no detection of its own.
\<close>

theorem cache_key_ignores_ws_path:
  "request_key (req\<lparr>query_wsPath := w\<rparr>) = request_key req
   \<and> (parse_query req = Some (ipv, portv, hostv, wsPath) \<and> parse_port portv = Some tp \<longrightarrow>
        request_key req
          = Some ((if isDomain ipv then ''domain_'' else ''ip_'') @ ipv @ ''_'' @ show_nat (nat tp)
                  @ ''_'' @ hostv))
   \<and> (api denv1 penv1 clk1 req1 st0 = (resp1, st1, tr1) \<and> times_in CacheStore tr1 = 1
        \<and> parse_query req1 = Some (ipv1, portv1, hostv1, wsPath1) \<and> parse_port portv1 = Some tp1
        \<and> requestCache st2 = requestCache st1
        \<and> query_ip req2 = query_ip req1 \<and> query_port req2 = query_port req1
        \<and> query_host req2 = query_host req1
        \<and> api denv2 penv2 clk2 req2 st2 = (resp2, st3, tr2) \<and> 0 < times_in CacheRead tr2
        \<and> now_lookup clk2 - now_store clk1 < CACHE_DURATION \<longrightarrow>
      (\<exists>detected.
          detect_batches (detectSingleIP penv1 tp1 hostv1 wsPath1) (target_addresses denv1 req1) 0 [] []
            = (Some detected, target_addresses denv1 req1)
          \<and> resp1 = Some \<lparr>status = 200, body = PayloadBody
                (response_payload clk1 ipv1 (isDomain ipv1) tp1 hostv1 (target_addresses denv1 req1)
                   detected)\<rparr>)
      \<and> resp2 = resp1 \<and> times_in Detection tr2 = 0 \<and> times_in CacheStore tr2 = 0
      \<and> filter (\<lambda>e. stage_of e = CacheRead) tr2 = [CacheLookup (cacheKey (isDomain ipv1) ipv1 tp1 hostv1)])"
proof (intro conjI impI)
  show "request_key (req\<lparr>query_wsPath := w\<rparr>) = request_key req"
    by (rule request_key_same_parameters) simp_all
next
  assume "parse_query req = Some (ipv, portv, hostv, wsPath) \<and> parse_port portv = Some tp"
  then show "request_key req
      = Some ((if isDomain ipv then ''domain_'' else ''ip_'') @ ipv @ ''_'' @ show_nat (nat tp)
              @ ''_'' @ hostv)"
    using request_key_formula by blast
next
  assume a: "api denv1 penv1 clk1 req1 st0 = (resp1, st1, tr1) \<and> times_in CacheStore tr1 = 1
        \<and> parse_query req1 = Some (ipv1, portv1, hostv1, wsPath1) \<and> parse_port portv1 = Some tp1
        \<and> requestCache st2 = requestCache st1
        \<and> query_ip req2 = query_ip req1 \<and> query_port req2 = query_port req1
        \<and> query_host req2 = query_host req1
        \<and> api denv2 penv2 clk2 req2 st2 = (resp2, st3, tr2) \<and> 0 < times_in CacheRead tr2
        \<and> now_lookup clk2 - now_store clk1 < CACHE_DURATION"
  then have key: "request_key req2 = request_key req1"
    by (intro request_key_same_parameters) simp_all
  from a have run1: "api denv1 penv1 clk1 req1 st0 = (resp1, st1, tr1)"
    and wrote: "times_in CacheStore tr1 = 1"
    and pq: "parse_query req1 = Some (ipv1, portv1, hostv1, wsPath1)"
    and port: "parse_port portv1 = Some tp1"
    by simp_all
  from stored_response [OF run1 wrote pq port]
  obtain detected where stored:
      "detect_batches (detectSingleIP penv1 tp1 hostv1 wsPath1) (target_addresses denv1 req1) 0 [] []
         = (Some detected, target_addresses denv1 req1)"
      "resp1 = Some \<lparr>status = 200, body = PayloadBody
            (response_payload clk1 ipv1 (isDomain ipv1) tp1 hostv1 (target_addresses denv1 req1) detected)\<rparr>"
      "request_key req1 = Some (cacheKey (isDomain ipv1) ipv1 tp1 hostv1)"
      "filter (\<lambda>e. stage_of e = CacheRead) tr1 = [CacheLookup (cacheKey (isDomain ipv1) ipv1 tp1 hostv1)]"
    by blast
  then show "\<exists>detected.
          detect_batches (detectSingleIP penv1 tp1 hostv1 wsPath1) (target_addresses denv1 req1) 0 [] []
            = (Some detected, target_addresses denv1 req1)
          \<and> resp1 = Some \<lparr>status = 200, body = PayloadBody
                (response_payload clk1 ipv1 (isDomain ipv1) tp1 hostv1 (target_addresses denv1 req1)
                   detected)\<rparr>"
    by blast
  have second: "resp2 = resp1 \<and> times_in Detection tr2 = 0 \<and> times_in CacheStore tr2 = 0
      \<and> filter (\<lambda>e. stage_of e = CacheRead) tr2 = filter (\<lambda>e. stage_of e = CacheRead) tr1"
    using a key
      second_request [of denv1 penv1 clk1 req1 st0 resp1 st1 tr1 st2 req2 denv2 penv2 clk2 resp2 st3 tr2]
    by blast
  then show "resp2 = resp1" and "times_in Detection tr2 = 0" and "times_in CacheStore tr2 = 0"
    by simp_all
  show "filter (\<lambda>e. stage_of e = CacheRead) tr2 = [CacheLookup (cacheKey (isDomain ipv1) ipv1 tp1 hostv1)]"
    using second stored(4) by simp
qed

theorem cache_key_ignores_ws_path_witness:
  "request_key other_path_request = request_key domain_request
   \<and> request_key domain_request = Some ''domain_a.example_443_example.com''
   \<and> fst other_path_run = fst first_run
   \<and> times_in Detection (snd (snd other_path_run)) = 0
   \<and> filter (\<lambda>e. stage_of e = CacheRead) (snd (snd other_path_run))
       = [CacheLookup ''domain_a.example_443_example.com'']
   \<and> map_option (ws_real_connect \<circ> checks)
       (detectSingleIP path_probes 443 ''example.com'' ''/ws'' ''192.0.2.1'') = Some True
   \<and> map_option (ws_real_connect \<circ> checks)
       (detectSingleIP path_probes 443 ''example.com'' ''/other'' ''192.0.2.1'') = Some False"
proof -
  have wrote: "times_in CacheStore (snd (snd first_run)) = 1"
    by code_simp
  have reached: "0 < times_in CacheRead (snd (snd other_path_run))"
    by code_simp
  have parsed: "parse_query domain_request = Some (''a.example'', None, ''example.com'', ''/ws'')"
      "parse_port None = Some 443" "isDomain ''a.example''"
    by code_simp+
  have young: "now_lookup later - now_store noon < CACHE_DURATION"
    by (simp add: later_def noon_def CACHE_DURATION_def)
  have probes: "map_option (ws_real_connect \<circ> checks)
       (detectSingleIP path_probes 443 ''example.com'' ''/ws'' ''192.0.2.1'') = Some True"
      "map_option (ws_real_connect \<circ> checks)
       (detectSingleIP path_probes 443 ''example.com'' ''/other'' ''192.0.2.1'') = Some False"
    by code_simp+
  have same: "query_ip other_path_request = query_ip domain_request"
      "query_port other_path_request = query_port domain_request"
      "query_host other_path_request = query_host domain_request"
    by (simp_all add: other_path_request_def)
  have key_text: "cacheKey True ''a.example'' 443 ''example.com'' = ''domain_a.example_443_example.com''"
    by code_simp
  note inst = cache_key_ignores_ws_path [where req = domain_request and w = "Some ''/other''"
        and ipv = "''a.example''" and portv = None and hostv = "''example.com''" and wsPath = "''/ws''"
        and tp = 443
        and ?denv1.0 = simple_dns and ?penv1.0 = path_probes and ?clk1.0 = noon
        and ?req1.0 = domain_request and ?st0.0 = fresh_state
        and ?resp1.0 = "fst first_run" and ?st1.0 = "fst (snd first_run)" and ?tr1.0 = "snd (snd first_run)"
        and ?ipv1.0 = "''a.example''" and ?portv1.0 = None and ?hostv1.0 = "''example.com''"
        and ?wsPath1.0 = "''/ws''" and ?tp1.0 = 443
        and ?st2.0 = "fst (snd first_run)" and ?req2.0 = other_path_request
        and ?denv2.0 = simple_dns and ?penv2.0 = path_probes and ?clk2.0 = later
        and ?resp2.0 = "fst other_path_run" and ?st3.0 = "fst (snd other_path_run)"
        and ?tr2.0 = "snd (snd other_path_run)"]
  have runs: "api simple_dns path_probes noon domain_request fresh_state
        = (fst first_run, fst (snd first_run), snd (snd first_run))"
      "api simple_dns path_probes later other_path_request (fst (snd first_run))
        = (fst other_path_run, fst (snd other_path_run), snd (snd other_path_run))"
    by (simp_all add: first_run_def [symmetric] other_path_run_def [symmetric])
  have "fst other_path_run = fst first_run \<and> times_in Detection (snd (snd other_path_run)) = 0
      \<and> filter (\<lambda>e. stage_of e = CacheRead) (snd (snd other_path_run))
          = [CacheLookup (cacheKey True ''a.example'' 443 ''example.com'')]"
    using inst wrote reached young parsed same runs by simp
  moreover have "request_key other_path_request = request_key domain_request"
    using inst by (simp add: other_path_request_def)
  moreover have "request_key domain_request = Some ''domain_a.example_443_example.com''"
    by code_simp
  ultimately show ?thesis
    using probes key_text by simp
qed

text \<open>The claim as written fails when the second request does not reach the cache lookup.
  The request for \<^verbatim>\<open>a.example\<close> with the path \<^verbatim>\<open>/ws\<close> is the last that the rate limiter
  allows its client in the window; it runs a detection and stores its response.  The
  request with the same address, port and host and the path \<^verbatim>\<open>/other\<close>, 20 seconds later,
  is refused by the rate limiter with status 429: it is not served the cached response,
  and does not get to the cache lookup.\<close>

theorem rate_limited_other_path_counterexample:
  "query_ip other_path_request = query_ip domain_request
   \<and> query_port other_path_request = query_port domain_request
   \<and> query_host other_path_request = query_host domain_request
   \<and> query_wsPath domain_request = Some ''/ws''
   \<and> query_wsPath other_path_request = Some ''/other''
   \<and> now_lookup later - now_store noon < CACHE_DURATION
   \<and> map_option status (fst last_allowed_run) = Some 200
   \<and> times_in CacheStore (snd (snd last_allowed_run)) = 1
   \<and> fst refused_other_path_run = Some \<lparr>status = 429, body = ErrorBody TooManyRequests\<rparr>
   \<and> times_in CacheRead (snd (snd refused_other_path_run)) = 0"
  by code_simp

end
